theory Spec2Isabelle
  imports Complex_Main
begin

section \<open>JavaScript numbers and values\<close>

text \<open>
  A finite JavaScript number is carried as the rational it denotes. The three non-finite
  values \<open>NaN\<close>, \<open>Infinity\<close> and \<open>-Infinity\<close> occur where a dimension enters
  \<open>calculateSquareFeet\<close>, whose validation rejects them (\<open>NaN\<close> as not a valid number)
  before any arithmetic is done; the adjusters and the strategies are modelled as
  functions of finite numbers.

  The adjusters are exported and take any number, so their subtractions are the
  subtractions of doubles: the difference is rounded to the nearest double, a tie going to
  the even significand (\<open>js_sub\<close> below). Above \<open>2^53\<close> the doubles are more than 1
  apart, and there the decrement of the loop can leave its operand as it is. The comparisons
  and the remainder \<open>%\<close> are exact on doubles. The arithmetic of the strategies (the
  differences of \<open>calculateExporters\<close>, the product, the quotient and the rounding to two
  decimals) is computed exactly.
\<close>

datatype js_number = NaN | NegInfinity | Finite rat | PosInfinity

datatype js_value = JSNull | JSUndefined | JSString string | JSNumber js_number

text \<open>\<open>a % b\<close> on finite numbers with \<open>b \<noteq> 0\<close>: the remainder has the sign of the dividend.\<close>

definition trunc :: "rat \<Rightarrow> int" where
  "trunc q = (if 0 \<le> q then \<lfloor>q\<rfloor> else \<lceil>q\<rceil>)"

definition js_mod :: "rat \<Rightarrow> rat \<Rightarrow> rat" where
  "js_mod a b = a - b * of_int (trunc (a / b))"

subsection \<open>Rounding to a double\<close>

text \<open>The nearest integer, a tie going to the even one.\<close>

definition round_half_even :: "rat \<Rightarrow> int" where
  "round_half_even x =
     (let f = \<lfloor>x\<rfloor>; d = x - of_int f
      in if d < 1 / 2 then f else if 1 / 2 < d then f + 1 else if even f then f else f + 1)"

text \<open>
  The doubles around \<open>x\<close> are the multiples of \<open>ulp x\<close>, a power of two: \<open>2^q\<close> with
  \<open>2^(52+q) \<le> |x| < 2^(53+q)\<close>, and never less than \<open>2^-1074\<close>, the spacing of the
  subnormal numbers. The exponent is found by search, upwards from 1 when \<open>|x| \<ge> 2^53\<close>
  and downwards from 0 otherwise.
\<close>

function grid_up :: "rat \<Rightarrow> nat \<Rightarrow> nat" where
  "grid_up x q = (if \<bar>x\<bar> < 2 ^ 53 * 2 ^ q then q else grid_up x (q + 1))"
  by pat_completeness auto
termination
proof (relation "measure (\<lambda>(x, q). nat \<lceil>\<bar>x\<bar>\<rceil> - q)")
  show "wf (measure (\<lambda>(x, q). nat \<lceil>\<bar>x\<bar>\<rceil> - q))" by (rule wf_measure)
next
  fix x :: rat and q :: nat
  assume a: "\<not> \<bar>x\<bar> < 2 ^ 53 * 2 ^ q"
  have "(of_nat q :: rat) < 2 ^ q" by (rule of_nat_less_two_power)
  also have "\<dots> \<le> 2 ^ 53 * 2 ^ q"
    by (rule order_trans[of _ "1 * 2 ^ q"]) (simp, rule mult_right_mono, simp_all)
  also have "\<dots> \<le> \<bar>x\<bar>" using a by (simp only: not_less)
  also have "\<dots> \<le> of_int \<lceil>\<bar>x\<bar>\<rceil>" by (rule le_of_int_ceiling)
  finally have "(of_int (int q) :: rat) < of_int \<lceil>\<bar>x\<bar>\<rceil>" by simp
  then have "int q < \<lceil>\<bar>x\<bar>\<rceil>" by (simp only: of_int_less_iff)
  then have "q < nat \<lceil>\<bar>x\<bar>\<rceil>" by simp
  then show "((x, q + 1), (x, q)) \<in> measure (\<lambda>(x, q). nat \<lceil>\<bar>x\<bar>\<rceil> - q)" by simp
qed

declare grid_up.simps [simp del]

function grid_down :: "rat \<Rightarrow> nat \<Rightarrow> nat" where
  "grid_down x k = (if 1074 \<le> k \<or> 2 ^ 52 \<le> \<bar>x\<bar> * 2 ^ k then k else grid_down x (k + 1))"
  by pat_completeness auto
termination
  by (relation "measure (\<lambda>(x, k). 1074 - k)") auto

declare grid_down.simps [simp del]

definition ulp :: "rat \<Rightarrow> rat" where
  "ulp x = (if 2 ^ 53 \<le> \<bar>x\<bar> then 2 ^ grid_up x 1 else 1 / 2 ^ grid_down x 0)"

definition nearest_double :: "rat \<Rightarrow> rat" where
  "nearest_double x = of_int (round_half_even (x / ulp x)) * ulp x"

text \<open>
  \<open>a - b\<close> on doubles. The adjusters subtract 3 or 2 from a number that is not less, and
  1 from a positive number, so the difference never leaves the range of the doubles.
\<close>

definition js_sub :: "rat \<Rightarrow> rat \<Rightarrow> rat" where
  "js_sub a b = nearest_double (a - b)"

text \<open>\<open>Math.round\<close>: the nearest integer, a tie going up.\<close>

definition Math_round :: "rat \<Rightarrow> rat" where
  "Math_round x = of_int \<lfloor>x + 1 / 2\<rfloor>"

text \<open>
  \<open>isFinite\<close>: a computation on doubles yields an infinity when its value leaves the range
  of the doubles, so on exact values the test is a test of magnitude against
  \<open>Number.MAX_VALUE\<close>.
\<close>

definition MAX_VALUE :: rat where
  "MAX_VALUE = (2 ^ 53 - 1) * 2 ^ 971"

definition isFinite :: "rat \<Rightarrow> bool" where
  "isFinite x \<longleftrightarrow> \<bar>x\<bar> \<le> MAX_VALUE"

subsection \<open>parseFloat\<close>

text \<open>
  \<open>parseFloat\<close> converts its argument to a string, drops leading white space and reads the
  longest prefix that is a decimal literal (\<open>Infinity\<close>, or digits with an optional
  fraction and exponent, each optionally signed); with no such prefix the result is NaN.
  The value of the literal is rounded to the nearest double, so that \<open>1e-400\<close> reads as
  0, and to \<open>Infinity\<close> when that lies beyond \<open>Number.MAX_VALUE\<close>.
  A number argument is printed and read back, which returns the number itself. Strings are
  lists of 8-bit characters here, so of the white-space characters only those below 256
  appear.
\<close>

definition isWhiteSpace :: "char \<Rightarrow> bool" where
  "isWhiteSpace c \<longleftrightarrow> (of_char c :: nat) \<in> {9, 10, 11, 12, 13, 32, 160}"

definition isDigit :: "char \<Rightarrow> bool" where
  "isDigit c \<longleftrightarrow> 48 \<le> (of_char c :: nat) \<and> (of_char c :: nat) \<le> 57"

definition digitsValue :: "string \<Rightarrow> int" where
  "digitsValue ds = foldl (\<lambda>a c. 10 * a + (of_char c - 48)) 0 ds"

definition exponentPart :: "string \<Rightarrow> int" where
  "exponentPart s =
     (case s of
        [] \<Rightarrow> 0
      | e # t \<Rightarrow>
          if e = CHR ''e'' \<or> e = CHR ''E'' then
            (let sgn = (case t of [] \<Rightarrow> 1 | c # _ \<Rightarrow> if c = CHR ''-'' then - 1 else (1::int));
                 u = (case t of [] \<Rightarrow> [] | c # r \<Rightarrow> if c = CHR ''-'' \<or> c = CHR ''+'' then r else t);
                 ds = takeWhile isDigit u
             in if ds = [] then 0 else sgn * digitsValue ds)
          else 0)"

definition scale10 :: "rat \<Rightarrow> int \<Rightarrow> rat" where
  "scale10 x e = (if 0 \<le> e then x * 10 ^ nat e else x / 10 ^ nat (- e))"

definition parseUnsigned :: "string \<Rightarrow> js_number" where
  "parseUnsigned s =
     (if take 8 s = ''Infinity'' then PosInfinity
      else
        let ip = takeWhile isDigit s;
            r1 = dropWhile isDigit s;
            fp = (case r1 of [] \<Rightarrow> [] | c # t \<Rightarrow> if c = CHR ''.'' then takeWhile isDigit t else []);
            r2 = (case r1 of [] \<Rightarrow> [] | c # t \<Rightarrow> if c = CHR ''.'' then dropWhile isDigit t else r1)
        in if ip = [] \<and> fp = [] then NaN
           else
             let v = nearest_double
                       (scale10 (of_int (digitsValue ip) + of_int (digitsValue fp) / 10 ^ length fp)
                          (exponentPart r2))
             in if MAX_VALUE < v then PosInfinity else Finite v)"

fun negate :: "js_number \<Rightarrow> js_number" where
  "negate NaN = NaN"
| "negate NegInfinity = PosInfinity"
| "negate (Finite r) = Finite (- r)"
| "negate PosInfinity = NegInfinity"

definition parseFloatString :: "string \<Rightarrow> js_number" where
  "parseFloatString s =
     (case dropWhile isWhiteSpace s of
        [] \<Rightarrow> NaN
      | c # t \<Rightarrow>
          if c = CHR ''-'' then negate (parseUnsigned t)
          else if c = CHR ''+'' then parseUnsigned t
          else parseUnsigned (c # t))"

fun parseFloat :: "js_value \<Rightarrow> js_number" where
  "parseFloat JSNull = NaN"
| "parseFloat JSUndefined = NaN"
| "parseFloat (JSString s) = parseFloatString s"
| "parseFloat (JSNumber n) = n"

section \<open>The calculation engine (src/utils/calculationEngine.js)\<close>

subsection \<open>Divisibility adjusters\<close>

definition maxIterations :: nat where
  "maxIterations = 100"

text \<open>
  The \<open>while\<close> loop of \<open>processLengthForDivisibility\<close> and of
  \<open>processBreadthForDivisibility\<close> (the two loops are the same text up to the variable's
  name), on its two variables: the processed value and the iteration counter.
\<close>

function decrementLoop :: "rat \<Rightarrow> nat \<Rightarrow> rat \<times> nat" where
  "decrementLoop processed iterations =
     (if js_mod processed 3 \<noteq> 0 \<and> 0 < processed \<and> iterations < maxIterations
      then decrementLoop (js_sub processed 1) (iterations + 1)
      else (processed, iterations))"
  by pat_completeness auto
termination
  by (relation "measure (\<lambda>(p, i). maxIterations - i)") auto

declare decrementLoop.simps [simp del]

definition processLengthForDivisibility :: "rat \<Rightarrow> rat" where
  "processLengthForDivisibility len =
     (if len < 3 then 0
      else
        let (processedLength, iterations) = decrementLoop (js_sub len 3) 0
        in if iterations \<ge> maxIterations then 0 else max processedLength 0)"

definition processBreadthForDivisibility :: "rat \<Rightarrow> rat" where
  "processBreadthForDivisibility breadth =
     (if breadth < 2 then 0
      else
        let (processedBreadth, iterations) = decrementLoop (js_sub breadth 2) 0
        in if iterations \<ge> maxIterations then 0 else max processedBreadth 0)"

subsection \<open>Errors and results\<close>

text \<open>
  A thrown \<open>Error\<close> object: its message and the properties the engine attaches to it
  (\<open>type\<close>, \<open>details\<close>, \<open>originalError\<close>), absent ones being \<open>None\<close>.
\<close>

datatype js_error =
  JsError (message: string) (error_type: "string option")
          (details: "string list option") (originalError: "js_error option")

definition new_Error :: "string \<Rightarrow> js_error" where
  "new_Error msg = JsError msg None None None"

text \<open>
  The numeric fields of a calculation result. The two display fields \<open>calculationSteps\<close>
  and \<open>rawCalculation\<close> are texts printed from the same numbers and are left out.
\<close>

record calculation_result =
  finalLength :: rat
  finalBreadth :: rat
  squareFeet :: rat

text \<open>
  Each strategy is a \<open>try\<close> block whose \<open>catch\<close> rethrows a fresh error under the
  strategy's name; the only \<open>throw\<close> inside the block is the defensive check of the area.
\<close>

definition calculateRetail :: "rat \<Rightarrow> rat \<Rightarrow> js_error + calculation_result" where
  "calculateRetail len breadth =
     (let finalLength = len;
          finalBreadth = breadth;
          squareInches = finalLength * finalBreadth;
          squareFeet = squareInches / 144
      in if \<not> isFinite squareFeet \<or> squareFeet < 0
         then Inl (new_Error (''Retail calculation failed: ''
                      @ message (new_Error ''Invalid calculation result'')))
         else Inr \<lparr> finalLength = finalLength, finalBreadth = finalBreadth,
                    squareFeet = Math_round (squareFeet * 100) / 100 \<rparr>)"

definition calculateGraniteShops :: "rat \<Rightarrow> rat \<Rightarrow> js_error + calculation_result" where
  "calculateGraniteShops len breadth =
     (let finalLength = processLengthForDivisibility len;
          finalBreadth = processBreadthForDivisibility breadth;
          squareInches = finalLength * finalBreadth;
          squareFeet = squareInches / 144
      in if \<not> isFinite squareFeet \<or> squareFeet < 0
         then Inl (new_Error (''Granite Shops calculation failed: ''
                      @ message (new_Error ''Invalid calculation result'')))
         else Inr \<lparr> finalLength = finalLength, finalBreadth = finalBreadth,
                    squareFeet = Math_round (squareFeet * 100) / 100 \<rparr>)"

definition calculateBuilders :: "rat \<Rightarrow> rat \<Rightarrow> js_error + calculation_result" where
  "calculateBuilders len breadth =
     (let finalLength = processLengthForDivisibility len;
          finalBreadth = breadth;
          squareInches = finalLength * finalBreadth;
          squareFeet = squareInches / 144
      in if \<not> isFinite squareFeet \<or> squareFeet < 0
         then Inl (new_Error (''Builders calculation failed: ''
                      @ message (new_Error ''Invalid calculation result'')))
         else Inr \<lparr> finalLength = finalLength, finalBreadth = finalBreadth,
                    squareFeet = Math_round (squareFeet * 100) / 100 \<rparr>)"

definition calculateExporters :: "rat \<Rightarrow> rat \<Rightarrow> js_error + calculation_result" where
  "calculateExporters len breadth =
     (let finalLength = max (len - 3) 0;
          finalBreadth = max (breadth - 2) 0;
          squareInches = finalLength * finalBreadth;
          squareFeet = squareInches / 144
      in if \<not> isFinite squareFeet \<or> squareFeet < 0
         then Inl (new_Error (''Exporters calculation failed: ''
                      @ message (new_Error ''Invalid calculation result'')))
         else Inr \<lparr> finalLength = finalLength, finalBreadth = finalBreadth,
                    squareFeet = Math_round (squareFeet * 100) / 100 \<rparr>)"

definition calculateOutstationParties :: "rat \<Rightarrow> rat \<Rightarrow> js_error + calculation_result" where
  "calculateOutstationParties len breadth = calculateGraniteShops len breadth"

subsection \<open>calculateSquareFeet\<close>

definition CUSTOMER_TYPES :: "string list" where
  "CUSTOMER_TYPES =
     [''retail'', ''granite_shops'', ''builders'', ''outstation_parties'', ''exporters'']"

fun join :: "string \<Rightarrow> string list \<Rightarrow> string" where
  "join sep [] = []"
| "join sep [x] = x"
| "join sep (x # y # ys) = x @ sep @ join sep (y # ys)"

text \<open>
  The validation block of one dimension; the source has it twice, for \<open>Length\<close> and for
  \<open>Breadth\<close>. The messages are pushed in this order, at most one per dimension.
\<close>

definition dimensionErrors :: "string \<Rightarrow> js_value \<Rightarrow> string list" where
  "dimensionErrors name v =
     (if v = JSNull \<or> v = JSUndefined \<or> v = JSString [] then [name @ '' is required'']
      else
        (case parseFloat v of
           NaN \<Rightarrow> [name @ '' must be a valid number'']
         | NegInfinity \<Rightarrow> [name @ '' must be greater than 0'']
         | PosInfinity \<Rightarrow> [name @ '' cannot exceed 10,000 inches'']
         | Finite n \<Rightarrow>
             if n \<le> 0 then [name @ '' must be greater than 0'']
             else if n > 10000 then [name @ '' cannot exceed 10,000 inches'']
             else []))"

text \<open>
  The customer type is a string or absent (\<open>null\<close>/\<open>undefined\<close>); \<open>!customerType\<close> holds
  for an absent one and for the empty string.
\<close>

definition customerTypeErrors :: "string option \<Rightarrow> string list" where
  "customerTypeErrors customerType =
     (case customerType of
        None \<Rightarrow> [''Customer type is required'']
      | Some t \<Rightarrow>
          if t = [] then [''Customer type is required'']
          else if t \<notin> set CUSTOMER_TYPES
          then [''Invalid customer type: '' @ t @ ''. Valid types are: '' @ join '', '' CUSTOMER_TYPES]
          else [])"

definition validationErrors :: "js_value \<Rightarrow> js_value \<Rightarrow> string option \<Rightarrow> string list" where
  "validationErrors len breadth customerType =
     dimensionErrors ''Length'' len @ dimensionErrors ''Breadth'' breadth
       @ customerTypeErrors customerType"

text \<open>The \<open>switch\<close> on the customer type, with its \<open>default\<close> branch.\<close>

definition route :: "string option \<Rightarrow> rat \<Rightarrow> rat \<Rightarrow> js_error + calculation_result" where
  "route customerType numLength numBreadth =
     (if customerType = Some ''retail'' then calculateRetail numLength numBreadth
      else if customerType = Some ''granite_shops'' then calculateGraniteShops numLength numBreadth
      else if customerType = Some ''builders'' then calculateBuilders numLength numBreadth
      else if customerType = Some ''exporters'' then calculateExporters numLength numBreadth
      else if customerType = Some ''outstation_parties''
      then calculateOutstationParties numLength numBreadth
      else Inl (JsError (''Unsupported customer type: '' @ (case customerType of None \<Rightarrow> ''null'' | Some t \<Rightarrow> t))
                  (Some ''unsupported_customer_type'') None None))"

text \<open>
  The body of the outer \<open>try\<close>. After a passed validation both dimensions parse to finite
  numbers (lemma \<open>validated_finite\<close> below), so the last case, which stands for arithmetic
  on a non-finite number, is never taken.
\<close>

definition calculateSquareFeet_try ::
  "js_value \<Rightarrow> js_value \<Rightarrow> string option \<Rightarrow> js_error + calculation_result" where
  "calculateSquareFeet_try len breadth customerType =
     (let errs = validationErrors len breadth customerType
      in if errs \<noteq> []
         then Inl (JsError ''Validation failed'' (Some ''validation'') (Some errs) None)
         else
           (case (parseFloat len, parseFloat breadth) of
              (Finite numLength, Finite numBreadth) \<Rightarrow> route customerType numLength numBreadth
            | _ \<Rightarrow> Inl (new_Error ''Invalid calculation result'')))"

text \<open>The outer \<open>catch\<close>: a validation error is rethrown as it is, any other one wrapped.\<close>

definition rethrow :: "js_error \<Rightarrow> js_error" where
  "rethrow e =
     (if error_type e \<noteq> Some ''validation''
      then JsError (''Calculation failed: '' @ message e) (Some ''calculation'') None (Some e)
      else e)"

definition calculateSquareFeet ::
  "js_value \<Rightarrow> js_value \<Rightarrow> string option \<Rightarrow> js_error + calculation_result" where
  "calculateSquareFeet len breadth customerType =
     (case calculateSquareFeet_try len breadth customerType of
        Inl e \<Rightarrow> Inl (rethrow e)
      | Inr r \<Rightarrow> Inr r)"

subsection \<open>What the specification says of the engine\<close>

text \<open>
  The closed form the specification proposes for the decrement loop, in its words:
  \<open>v - (v % 3)\<close>.
\<close>

definition closedForm :: "rat \<Rightarrow> rat" where
  "closedForm v = v - js_mod v 3"

text \<open>
  The validation rules in the specification's words: a dimension must be present, numeric,
  greater than 0 and at most 10,000; the customer type must be a recognized token.
\<close>

definition validDimension :: "js_value \<Rightarrow> bool" where
  "validDimension v \<longleftrightarrow>
     v \<noteq> JSNull \<and> v \<noteq> JSUndefined \<and> v \<noteq> JSString [] \<and>
     (case parseFloat v of Finite n \<Rightarrow> 0 < n \<and> n \<le> 10000 | _ \<Rightarrow> False)"

definition recognizedCustomerType :: "string option \<Rightarrow> bool" where
  "recognizedCustomerType t \<longleftrightarrow> (case t of None \<Rightarrow> False | Some c \<Rightarrow> c \<in> set CUSTOMER_TYPES)"

section \<open>The database (server/database/schema.sql)\<close>

text \<open>
  The two tables the slab-entry model writes. A UUID is a natural number, drawn from a
  counter that stands for \<open>uuid_generate_v4()\<close>. \<open>DECIMAL\<close> columns hold exact rationals.
  Of \<open>measurement_sheets\<close> the columns that the slab-entry statements and the trigger read
  or write are kept; the time stamps of both tables are left out.
\<close>

record sheet_row =
  sheet_id :: nat
  customer_type :: string
  status :: string
  total_square_feet :: rat

record slab_row =
  entry_id :: nat
  measurement_sheet_id :: nat
  serial_number :: int
  block_number :: string
  entry_length :: rat
  entry_breadth :: rat
  slab_category :: string
  final_length :: rat
  final_breadth :: rat
  square_feet :: rat
  calculation_details :: "string option"

record database =
  measurement_sheets :: "sheet_row list"
  slab_entries :: "slab_row list"
  uuid_counter :: nat

text \<open>
  What a failed operation throws: an \<open>Error\<close> the model class raises itself, or the
  error of a statement the database refuses.
\<close>

datatype db_error = Error string | DatabaseError string

text \<open>
  A value stored in a \<open>DECIMAL(p, 2)\<close> column is rounded to two decimals, half away from
  zero, and refused when it has more than \<open>p - 2\<close> digits before the point.
\<close>

definition decimal2 :: "nat \<Rightarrow> rat \<Rightarrow> rat option" where
  "decimal2 p x =
     (let r = (if 0 \<le> x then of_int \<lfloor>x * 100 + 1 / 2\<rfloor> / 100
               else - (of_int \<lfloor>- x * 100 + 1 / 2\<rfloor> / 100))
      in if \<bar>r\<bar> < 10 ^ (p - 2) then Some r else None)"

definition SLAB_CATEGORIES :: "string list" where
  "SLAB_CATEGORIES = [''F'', ''LD'', ''D'', ''S'']"

definition entries_of :: "database \<Rightarrow> nat \<Rightarrow> slab_row list" where
  "entries_of db sid = filter (\<lambda>e. measurement_sheet_id e = sid) (slab_entries db)"

definition sheet_exists :: "database \<Rightarrow> nat \<Rightarrow> bool" where
  "sheet_exists db sid \<longleftrightarrow> sid \<in> set (map sheet_id (measurement_sheets db))"

subsection \<open>The trigger \<open>update_measurement_sheet_total\<close>\<close>

text \<open>\<open>SELECT COALESCE(SUM(square_feet), 0) FROM slab_entries WHERE measurement_sheet_id = sid\<close>\<close>

definition sum_square_feet :: "database \<Rightarrow> nat \<Rightarrow> rat" where
  "sum_square_feet db sid = sum_list (map square_feet (entries_of db sid))"

text \<open>
  The trigger function, called with the \<open>NEW\<close> and the \<open>OLD\<close> row (\<open>NEW\<close> is null on a
  delete, \<open>OLD\<close> on an insert). It sets the total of the sheet
  \<open>COALESCE(NEW.measurement_sheet_id, OLD.measurement_sheet_id)\<close> to the sum over that
  sheet's entries; the new total has to fit \<open>DECIMAL(10,2)\<close>.
\<close>

definition update_measurement_sheet_total ::
  "slab_row option \<Rightarrow> slab_row option \<Rightarrow> database \<Rightarrow> db_error + database" where
  "update_measurement_sheet_total NEW OLD db =
     (case (case NEW of Some n \<Rightarrow> Some (measurement_sheet_id n)
                      | None \<Rightarrow> map_option measurement_sheet_id OLD) of
        None \<Rightarrow> Inr db
      | Some sid \<Rightarrow>
          if \<not> sheet_exists db sid then Inr db
          else
            (case decimal2 10 (sum_square_feet db sid) of
               None \<Rightarrow> Inl (DatabaseError ''numeric field overflow'')
             | Some new_total \<Rightarrow>
                 Inr (db\<lparr> measurement_sheets :=
                           map (\<lambda>s. if sheet_id s = sid then s\<lparr> total_square_feet := new_total \<rparr>
                                    else s)
                               (measurement_sheets db) \<rparr>)))"

text \<open>
  The three triggers are \<open>AFTER \<dots> FOR EACH ROW\<close>: they run once for each row the statement
  wrote, after the statement has written all of them, in the statement's transaction.
\<close>

fun fire_triggers ::
  "(slab_row option \<times> slab_row option) list \<Rightarrow> database \<Rightarrow> db_error + database" where
  "fire_triggers [] db = Inr db"
| "fire_triggers ((NEW, OLD) # rest) db =
     (case update_measurement_sheet_total NEW OLD db of
        Inl e \<Rightarrow> Inl e
      | Inr db' \<Rightarrow> fire_triggers rest db')"

subsection \<open>The statements on \<open>slab_entries\<close>\<close>

text \<open>
  The values a caller hands over for one entry (\<open>slabEntryData\<close>, \<open>updateData\<close>); a field
  that is \<open>undefined\<close> or \<open>null\<close> reaches the database as NULL.
\<close>

record slab_entry_data =
  blockNumber :: "string option"
  slabLength :: "rat option"
  slabBreadth :: "rat option"
  slabCategory :: "string option"
  slabFinalLength :: "rat option"
  slabFinalBreadth :: "rat option"
  slabSquareFeet :: "rat option"
  calculationDetails :: "string option"

text \<open>
  The column constraints of one row: \<open>NOT NULL\<close>, the \<open>VARCHAR\<close> lengths, the \<open>DECIMAL\<close>
  ranges, the range of \<open>INTEGER\<close> and the \<open>CHECK\<close>s. The result is the row as stored.
\<close>

definition stored_row ::
  "nat \<Rightarrow> nat \<Rightarrow> int \<Rightarrow> slab_entry_data \<Rightarrow> db_error + slab_row" where
  "stored_row rid sid serial d =
     (case (blockNumber d, Option.bind (slabLength d) (decimal2 8),
            Option.bind (slabBreadth d) (decimal2 8), slabCategory d,
            Option.bind (slabFinalLength d) (decimal2 8),
            Option.bind (slabFinalBreadth d) (decimal2 8),
            Option.bind (slabSquareFeet d) (decimal2 10)) of
        (Some bn, Some l, Some b, Some c, Some fl, Some fb, Some sf) \<Rightarrow>
          if length bn \<le> 50 \<and> 0 < l \<and> 0 < b \<and> c \<in> set SLAB_CATEGORIES
             \<and> - 2147483648 \<le> serial \<and> serial \<le> 2147483647
          then Inr \<lparr> entry_id = rid, measurement_sheet_id = sid, serial_number = serial,
                     block_number = bn, entry_length = l, entry_breadth = b,
                     slab_category = c, final_length = fl, final_breadth = fb,
                     square_feet = sf, calculation_details = calculationDetails d \<rparr>
          else Inl (DatabaseError ''check constraint violated'')
      | _ \<Rightarrow> Inl (DatabaseError ''not-null constraint or numeric range violated''))"

text \<open>
  The rows of one \<open>INSERT \<dots> VALUES\<close>, added one after the other: each gets a fresh id, needs
  its sheet to exist (the foreign key) and its (sheet, serial number) pair to be new (the
  \<open>UNIQUE\<close> constraint).
\<close>

fun insert_rows ::
  "(nat \<times> int \<times> slab_entry_data) list \<Rightarrow> database \<Rightarrow> db_error + (slab_row list \<times> database)"
where
  "insert_rows [] db = Inr ([], db)"
| "insert_rows ((sid, serial, d) # vs) db =
     (case stored_row (uuid_counter db) sid serial d of
        Inl e \<Rightarrow> Inl e
      | Inr r \<Rightarrow>
          if \<not> sheet_exists db sid then Inl (DatabaseError ''foreign key violated'')
          else if serial \<in> set (map serial_number (entries_of db sid))
          then Inl (DatabaseError ''unique constraint violated'')
          else
            (case insert_rows vs (db\<lparr> slab_entries := slab_entries db @ [r],
                                       uuid_counter := uuid_counter db + 1 \<rparr>) of
               Inl e \<Rightarrow> Inl e
             | Inr (rs, db') \<Rightarrow> Inr (r # rs, db')))"

text \<open>
  \<open>INSERT INTO slab_entries (\<dots>) VALUES \<dots> RETURNING *\<close>; a statement with no row after
  \<open>VALUES\<close> does not parse.
\<close>

definition sql_insert ::
  "(nat \<times> int \<times> slab_entry_data) list \<Rightarrow> database \<Rightarrow> db_error + (slab_row list \<times> database)"
where
  "sql_insert vs db =
     (if vs = [] then Inl (DatabaseError ''syntax error'')
      else
        (case insert_rows vs db of
           Inl e \<Rightarrow> Inl e
         | Inr (rs, db1) \<Rightarrow>
             (case fire_triggers (map (\<lambda>r. (Some r, None)) rs) db1 of
                Inl e \<Rightarrow> Inl e
              | Inr db2 \<Rightarrow> Inr (rs, db2))))"

text \<open>
  \<open>UPDATE slab_entries SET col = COALESCE($n, col), \<dots> WHERE id = $9 RETURNING *\<close>: the row
  a matching row becomes, checked against the column constraints again.
\<close>

definition updated_row :: "slab_entry_data \<Rightarrow> slab_row \<Rightarrow> db_error + slab_row" where
  "updated_row d r =
     stored_row (entry_id r) (measurement_sheet_id r) (serial_number r)
       \<lparr> blockNumber = Some (case blockNumber d of Some v \<Rightarrow> v | None \<Rightarrow> block_number r),
         slabLength = Some (case slabLength d of Some v \<Rightarrow> v | None \<Rightarrow> entry_length r),
         slabBreadth = Some (case slabBreadth d of Some v \<Rightarrow> v | None \<Rightarrow> entry_breadth r),
         slabCategory = Some (case slabCategory d of Some v \<Rightarrow> v | None \<Rightarrow> slab_category r),
         slabFinalLength = Some (case slabFinalLength d of Some v \<Rightarrow> v | None \<Rightarrow> final_length r),
         slabFinalBreadth =
           Some (case slabFinalBreadth d of Some v \<Rightarrow> v | None \<Rightarrow> final_breadth r),
         slabSquareFeet = Some (case slabSquareFeet d of Some v \<Rightarrow> v | None \<Rightarrow> square_feet r),
         calculationDetails =
           (case calculationDetails d of Some v \<Rightarrow> Some v | None \<Rightarrow> calculation_details r) \<rparr>"

text \<open>
  The rows of the table after the update, with the (new, old) pairs of the rows it wrote.
\<close>

fun update_rows ::
  "nat \<Rightarrow> slab_entry_data \<Rightarrow> slab_row list
     \<Rightarrow> db_error + (slab_row list \<times> (slab_row \<times> slab_row) list)" where
  "update_rows rid d [] = Inr ([], [])"
| "update_rows rid d (r # rs) =
     (case update_rows rid d rs of
        Inl e \<Rightarrow> Inl e
      | Inr (rs', pairs) \<Rightarrow>
          if entry_id r = rid then
            (case updated_row d r of
               Inl e \<Rightarrow> Inl e
             | Inr r' \<Rightarrow> Inr (r' # rs', (r', r) # pairs))
          else Inr (r # rs', pairs))"

definition sql_update ::
  "nat \<Rightarrow> slab_entry_data \<Rightarrow> database \<Rightarrow> db_error + (slab_row list \<times> database)" where
  "sql_update rid d db =
     (case update_rows rid d (slab_entries db) of
        Inl e \<Rightarrow> Inl e
      | Inr (rows, pairs) \<Rightarrow>
          (case fire_triggers (map (\<lambda>(n, old). (Some n, Some old)) pairs)
                  (db\<lparr> slab_entries := rows \<rparr>) of
             Inl e \<Rightarrow> Inl e
           | Inr db' \<Rightarrow> Inr (map fst pairs, db')))"

text \<open>\<open>DELETE FROM slab_entries WHERE id = ANY($1) RETURNING \<dots>\<close>\<close>

definition sql_delete :: "nat list \<Rightarrow> database \<Rightarrow> db_error + (slab_row list \<times> database)" where
  "sql_delete ids db =
     (let deleted = filter (\<lambda>r. entry_id r \<in> set ids) (slab_entries db);
          kept = filter (\<lambda>r. entry_id r \<notin> set ids) (slab_entries db)
      in case fire_triggers (map (\<lambda>r. (None, Some r)) deleted) (db\<lparr> slab_entries := kept \<rparr>) of
           Inl e \<Rightarrow> Inl e
         | Inr db' \<Rightarrow> Inr (deleted, db'))"

section \<open>The slab-entry model (server/models/SlabEntry.js)\<close>

text \<open>
  Each operation runs against the database and either throws, the transaction being rolled
  back so that the database is as before, or returns its result with the database as
  committed. The statements run one at a time. The cache invalidation that follows a
  commit cannot fail (see the cache below) and does not touch the database.
\<close>

text \<open>\<open>SELECT COALESCE(MAX(serial_number), 0) FROM slab_entries WHERE measurement_sheet_id = $1\<close>\<close>

definition max_serial :: "database \<Rightarrow> nat \<Rightarrow> int" where
  "max_serial db sid =
     (case map serial_number (entries_of db sid) of
        [] \<Rightarrow> 0
      | x # xs \<Rightarrow> fold max xs x)"

text \<open>
  The same query with the clause \<open>FOR UPDATE\<close> appended, as \<open>create\<close> and
  \<open>batchCreate\<close> send it. The server is PostgreSQL (the pool of \<open>pg\<close>, the schema with
  its \<open>plpgsql\<close> trigger), which does not accept a locking clause on a query that selects an
  aggregate: it refuses the statement when it analyses it, whatever the table holds.
\<close>

definition serial_query :: "database \<Rightarrow> nat \<Rightarrow> db_error + int" where
  "serial_query db sid =
     Inl (DatabaseError ''FOR UPDATE is not allowed with aggregate functions'')"

definition SlabEntry_create ::
  "nat \<Rightarrow> slab_entry_data \<Rightarrow> database \<Rightarrow> db_error + (slab_row \<times> database)" where
  "SlabEntry_create measurementSheetId slabEntryData db =
     (if \<not> sheet_exists db measurementSheetId then Inl (Error ''Measurement sheet not found'')
      else
        (case serial_query db measurementSheetId of
           Inl e \<Rightarrow> Inl e
         | Inr max_serial_number \<Rightarrow>
             let serialNumber = max_serial_number + 1
             in case sql_insert [(measurementSheetId, serialNumber, slabEntryData)] db of
                  Inl e \<Rightarrow> Inl e
                | Inr (rows, db') \<Rightarrow>
                    (case rows of
                       [] \<Rightarrow> Inl (Error ''Cannot read properties of undefined'')
                     | r # _ \<Rightarrow> Inr (r, db'))))"

text \<open>The \<open>for\<close> loop of \<open>batchCreate\<close>: \<open>currentSerial++\<close> before each entry is queued.\<close>

fun batch_values ::
  "nat \<Rightarrow> int \<Rightarrow> slab_entry_data list \<Rightarrow> (nat \<times> int \<times> slab_entry_data) list" where
  "batch_values measurementSheetId currentSerial [] = []"
| "batch_values measurementSheetId currentSerial (entryData # rest) =
     (measurementSheetId, currentSerial + 1, entryData)
       # batch_values measurementSheetId (currentSerial + 1) rest"

definition SlabEntry_batchCreate ::
  "nat \<Rightarrow> slab_entry_data list \<Rightarrow> database \<Rightarrow> db_error + (slab_row list \<times> database)" where
  "SlabEntry_batchCreate measurementSheetId slabEntriesData db =
     (if \<not> sheet_exists db measurementSheetId then Inl (Error ''Measurement sheet not found'')
      else
        (case serial_query db measurementSheetId of
           Inl e \<Rightarrow> Inl e
         | Inr currentSerial \<Rightarrow>
             sql_insert (batch_values measurementSheetId currentSerial slabEntriesData) db))"

definition SlabEntry_update ::
  "nat \<Rightarrow> slab_entry_data \<Rightarrow> database \<Rightarrow> db_error + (slab_row \<times> database)" where
  "SlabEntry_update this_id updateData db =
     (case sql_update this_id updateData db of
        Inl e \<Rightarrow> Inl e
      | Inr (rows, db') \<Rightarrow>
          (case rows of
             [] \<Rightarrow> Inl (Error ''Slab entry not found'')
           | r # _ \<Rightarrow> Inr (r, db')))"

text \<open>
  \<open>batchUpdate\<close>: one \<open>UPDATE\<close> for each element, in one transaction; an id that matches
  no row is passed over.
\<close>

fun SlabEntry_batchUpdate ::
  "(nat \<times> slab_entry_data) list \<Rightarrow> database \<Rightarrow> db_error + (slab_row list \<times> database)" where
  "SlabEntry_batchUpdate [] db = Inr ([], db)"
| "SlabEntry_batchUpdate ((rid, updateData) # updates) db =
     (case sql_update rid updateData db of
        Inl e \<Rightarrow> Inl e
      | Inr (rows, db1) \<Rightarrow>
          (case SlabEntry_batchUpdate updates db1 of
             Inl e \<Rightarrow> Inl e
           | Inr (updatedEntries, db2) \<Rightarrow> Inr (take 1 rows @ updatedEntries, db2)))"

definition SlabEntry_delete :: "nat \<Rightarrow> database \<Rightarrow> db_error + (bool \<times> database)" where
  "SlabEntry_delete this_id db =
     (case sql_delete [this_id] db of
        Inl e \<Rightarrow> Inl e
      | Inr (rows, db') \<Rightarrow>
          if rows = [] then Inl (Error ''Slab entry not found'') else Inr (True, db'))"

definition SlabEntry_batchDelete :: "nat list \<Rightarrow> database \<Rightarrow> db_error + (nat list \<times> database)" where
  "SlabEntry_batchDelete ids db =
     (case sql_delete ids db of
        Inl e \<Rightarrow> Inl e
      | Inr (rows, db') \<Rightarrow> Inr (map entry_id rows, db'))"

text \<open>
  A call of the model, and a sequence of calls; a call that throws leaves the database as
  it was.
\<close>

datatype call =
  Create nat slab_entry_data
| BatchCreate nat "slab_entry_data list"
| Update nat slab_entry_data
| BatchUpdate "(nat \<times> slab_entry_data) list"
| Delete nat
| BatchDelete "nat list"

fun run_call :: "call \<Rightarrow> database \<Rightarrow> db_error + database" where
  "run_call (Create sid d) db = map_sum (\<lambda>e. e) snd (SlabEntry_create sid d db)"
| "run_call (BatchCreate sid ds) db = map_sum (\<lambda>e. e) snd (SlabEntry_batchCreate sid ds db)"
| "run_call (Update rid d) db = map_sum (\<lambda>e. e) snd (SlabEntry_update rid d db)"
| "run_call (BatchUpdate us) db = map_sum (\<lambda>e. e) snd (SlabEntry_batchUpdate us db)"
| "run_call (Delete rid) db = map_sum (\<lambda>e. e) snd (SlabEntry_delete rid db)"
| "run_call (BatchDelete ids) db = map_sum (\<lambda>e. e) snd (SlabEntry_batchDelete ids db)"

definition after_call :: "call \<Rightarrow> database \<Rightarrow> database" where
  "after_call c db = (case run_call c db of Inl _ \<Rightarrow> db | Inr db' \<Rightarrow> db')"

fun after_calls :: "call list \<Rightarrow> database \<Rightarrow> database" where
  "after_calls [] db = db"
| "after_calls (c # cs) db = after_calls cs (after_call c db)"


subsection \<open>What the specification says of the ledger\<close>

text \<open>
  The total of the sheet \<open>sid\<close> is the sum of the areas of its entries; and so it is for
  every sheet.
\<close>

definition sheet_consistent :: "database \<Rightarrow> nat \<Rightarrow> bool" where
  "sheet_consistent db sid \<longleftrightarrow>
     list_all (\<lambda>s. sheet_id s \<noteq> sid \<or> total_square_feet s = sum_square_feet db sid)
              (measurement_sheets db)"

definition totals_consistent :: "database \<Rightarrow> bool" where
  "totals_consistent db \<longleftrightarrow>
     list_all (\<lambda>s. total_square_feet s = sum_square_feet db (sheet_id s)) (measurement_sheets db)"

text \<open>
  What the column type \<open>DECIMAL(10,2)\<close> guarantees of the stored areas: every
  \<open>square_feet\<close> in the table has at most two decimals.
\<close>

definition two_decimals :: "rat \<Rightarrow> bool" where
  "two_decimals x \<longleftrightarrow> of_int \<lfloor>x * 100\<rfloor> = x * 100"

definition well_typed :: "database \<Rightarrow> bool" where
  "well_typed db \<longleftrightarrow> list_all (\<lambda>r. two_decimals (square_feet r)) (slab_entries db)"

subsection \<open>An example ledger\<close>

text \<open>
  One draft sheet with no entries, and the entry data of a builders slab of 150 by 100
  (final length 147, area 102.08 = 2552/25).
\<close>

definition example_db :: database where
  "example_db =
     \<lparr> measurement_sheets =
         [\<lparr> sheet_id = 1, customer_type = ''Builders'', status = ''draft'',
            total_square_feet = 0 \<rparr>],
       slab_entries = [], uuid_counter = 0 \<rparr>"

definition example_data :: slab_entry_data where
  "example_data =
     \<lparr> blockNumber = Some ''B1'', slabLength = Some 150, slabBreadth = Some 100,
       slabCategory = Some ''F'', slabFinalLength = Some 147, slabFinalBreadth = Some 100,
       slabSquareFeet = Some (2552 / 25), calculationDetails = None \<rparr>"

definition example_row :: "nat \<Rightarrow> int \<Rightarrow> slab_row" where
  "example_row rid serial =
     \<lparr> entry_id = rid, measurement_sheet_id = 1, serial_number = serial,
       block_number = ''B1'', entry_length = 150, entry_breadth = 100, slab_category = ''F'',
       final_length = 147, final_breadth = 100, square_feet = 2552 / 25,
       calculation_details = None \<rparr>"


definition example_db3 :: database where
  "example_db3 =
     \<lparr> measurement_sheets =
         [\<lparr> sheet_id = 1, customer_type = ''Builders'', status = ''draft'',
            total_square_feet = 7656 / 25 \<rparr>],
       slab_entries = [example_row 0 1, example_row 1 2, example_row 2 3],
       uuid_counter = 3 \<rparr>"


subsection \<open>Vocabulary of the proofs about the trigger\<close>

text \<open>The sheet one trigger call recomputes, and the sheets a list of calls recomputes.\<close>

definition target :: "slab_row option \<times> slab_row option \<Rightarrow> nat option" where
  "target p = (case fst p of Some n \<Rightarrow> Some (measurement_sheet_id n)
                 | None \<Rightarrow> map_option measurement_sheet_id (snd p))"

definition targets :: "(slab_row option \<times> slab_row option) list \<Rightarrow> nat set" where
  "targets ps = (\<Union>p \<in> set ps. set_option (target p))"

text \<open>A sheet row with its total recomputed from the entries of \<open>db\<close>, if it is one of \<open>S\<close>.\<close>

definition recompute :: "database \<Rightarrow> nat set \<Rightarrow> sheet_row \<Rightarrow> sheet_row" where
  "recompute db S s =
     (if sheet_id s \<in> S then s\<lparr> total_square_feet := sum_square_feet db (sheet_id s) \<rparr> else s)"

section \<open>The cache (server/config/redis.js)\<close>

text \<open>
  The Redis client is a parameter: four operations on a connection state \<open>'s\<close>, each of
  which, when awaited, either throws or yields a value, and leaves a new state. Nothing is
  assumed of them, so that a client may fail at any call. \<open>JSON.parse\<close> and
  \<open>JSON.stringify\<close>, which may throw as well, are parameters too, over the type \<open>'v\<close> of
  cached values. The messages written to the console are not kept.
\<close>

datatype exn = Exception string

record 's redis_client =
  client_get :: "string \<Rightarrow> 's \<Rightarrow> (exn + string option) \<times> 's"
  client_setEx :: "string \<Rightarrow> nat \<Rightarrow> string \<Rightarrow> 's \<Rightarrow> (exn + unit) \<times> 's"
  client_del :: "string list \<Rightarrow> 's \<Rightarrow> (exn + nat) \<times> 's"
  client_keys :: "string \<Rightarrow> 's \<Rightarrow> (exn + string list) \<times> 's"

record 'v environment =
  REDIS_HOST :: "string option"
  JSON_parse :: "string \<Rightarrow> exn + 'v option"
  JSON_stringify :: "'v \<Rightarrow> exn + string"

text \<open>\<open>!process.env.REDIS_HOST\<close>: the variable is unset or empty.\<close>

definition no_host :: "'v environment \<Rightarrow> bool" where
  "no_host env \<longleftrightarrow> (case REDIS_HOST env of None \<Rightarrow> True | Some h \<Rightarrow> h = [])"

text \<open>
  Each cache function is a \<open>try\<close> block (the \<open>_try\<close> definition, in which a throw of the
  client or of JSON ends the block) and a \<open>catch\<close> that returns \<open>null\<close> or \<open>false\<close>.
\<close>

definition cache_get_try ::
  "'v environment \<Rightarrow> 's redis_client \<Rightarrow> string \<Rightarrow> 's \<Rightarrow> (exn + 'v option) \<times> 's" where
  "cache_get_try env client key s =
     (if no_host env then (Inr None, s)
      else
        (case client_get client key s of
           (Inl e, s') \<Rightarrow> (Inl e, s')
         | (Inr v, s') \<Rightarrow>
             (case v of
                None \<Rightarrow> (Inr None, s')
              | Some str \<Rightarrow> if str = [] then (Inr None, s') else (JSON_parse env str, s'))))"

definition cache_get ::
  "'v environment \<Rightarrow> 's redis_client \<Rightarrow> string \<Rightarrow> 's \<Rightarrow> (exn + 'v option) \<times> 's" where
  "cache_get env client key s =
     (case cache_get_try env client key s of
        (Inl error, s') \<Rightarrow> (Inr None, s')
      | (Inr v, s') \<Rightarrow> (Inr v, s'))"

definition cache_set_try ::
  "'v environment \<Rightarrow> 's redis_client \<Rightarrow> string \<Rightarrow> 'v \<Rightarrow> nat option \<Rightarrow> 's
     \<Rightarrow> (exn + bool) \<times> 's" where
  "cache_set_try env client key val expireInSeconds s =
     (if no_host env then (Inr False, s)
      else
        (case JSON_stringify env val of
           Inl e \<Rightarrow> (Inl e, s)
         | Inr str \<Rightarrow>
             (case client_setEx client key
                     (case expireInSeconds of None \<Rightarrow> 3600 | Some n \<Rightarrow> n) str s of
                (Inl e, s') \<Rightarrow> (Inl e, s')
              | (Inr _, s') \<Rightarrow> (Inr True, s'))))"

definition cache_set ::
  "'v environment \<Rightarrow> 's redis_client \<Rightarrow> string \<Rightarrow> 'v \<Rightarrow> nat option \<Rightarrow> 's
     \<Rightarrow> (exn + bool) \<times> 's" where
  "cache_set env client key val expireInSeconds s =
     (case cache_set_try env client key val expireInSeconds s of
        (Inl error, s') \<Rightarrow> (Inr False, s')
      | (Inr b, s') \<Rightarrow> (Inr b, s'))"

definition cache_del_try ::
  "'v environment \<Rightarrow> 's redis_client \<Rightarrow> string \<Rightarrow> 's \<Rightarrow> (exn + bool) \<times> 's" where
  "cache_del_try env client key s =
     (if no_host env then (Inr False, s)
      else
        (case client_del client [key] s of
           (Inl e, s') \<Rightarrow> (Inl e, s')
         | (Inr _, s') \<Rightarrow> (Inr True, s')))"

definition cache_del ::
  "'v environment \<Rightarrow> 's redis_client \<Rightarrow> string \<Rightarrow> 's \<Rightarrow> (exn + bool) \<times> 's" where
  "cache_del env client key s =
     (case cache_del_try env client key s of
        (Inl error, s') \<Rightarrow> (Inr False, s')
      | (Inr b, s') \<Rightarrow> (Inr b, s'))"

definition cache_clearPattern_try ::
  "'v environment \<Rightarrow> 's redis_client \<Rightarrow> string \<Rightarrow> 's \<Rightarrow> (exn + bool) \<times> 's" where
  "cache_clearPattern_try env client pattern s =
     (if no_host env then (Inr False, s)
      else
        (case client_keys client pattern s of
           (Inl e, s') \<Rightarrow> (Inl e, s')
         | (Inr keys, s') \<Rightarrow>
             if length keys > 0 then
               (case client_del client keys s' of
                  (Inl e, s'') \<Rightarrow> (Inl e, s'')
                | (Inr _, s'') \<Rightarrow> (Inr True, s''))
             else (Inr True, s')))"

definition cache_clearPattern ::
  "'v environment \<Rightarrow> 's redis_client \<Rightarrow> string \<Rightarrow> 's \<Rightarrow> (exn + bool) \<times> 's" where
  "cache_clearPattern env client pattern s =
     (case cache_clearPattern_try env client pattern s of
        (Inl error, s') \<Rightarrow> (Inr False, s')
      | (Inr b, s') \<Rightarrow> (Inr b, s'))"

subsection \<open>Two clients\<close>

text \<open>
  A Redis server that works, as far as the cache uses it: the store is a list of keys with
  their values (expiry is left out), \<open>DEL\<close> removes the keys it finds and counts them,
  \<open>KEYS\<close> lists the keys that match a glob pattern, of which \<open>*\<close> and \<open>?\<close> are
  interpreted.
\<close>

type_synonym store = "(string \<times> string) list"

fun glob :: "string \<Rightarrow> string \<Rightarrow> bool" where
  "glob [] [] = True"
| "glob [] (c # cs) = False"
| "glob (p # ps) [] = (p = CHR ''*'' \<and> glob ps [])"
| "glob (p # ps) (c # cs) =
     (if p = CHR ''*'' then glob ps (c # cs) \<or> glob (p # ps) cs
      else (p = CHR ''?'' \<or> p = c) \<and> glob ps cs)"

definition memory_client :: "store redis_client" where
  "memory_client =
     \<lparr> client_get = (\<lambda>key st. (Inr (map_of st key), st)),
       client_setEx = (\<lambda>key ttl str st. (Inr (), (key, str) # filter (\<lambda>kv. fst kv \<noteq> key) st)),
       client_del = (\<lambda>keys st. (Inr (length (filter (\<lambda>kv. fst kv \<in> set keys) st)),
                                 filter (\<lambda>kv. fst kv \<notin> set keys) st)),
       client_keys = (\<lambda>pattern st. (Inr (filter (glob pattern) (map fst st)), st)) \<rparr>"

text \<open>A connection that is down: every call throws.\<close>

definition broken_client :: "'s redis_client" where
  "broken_client =
     \<lparr> client_get = (\<lambda>key st. (Inl (Exception ''ECONNREFUSED''), st)),
       client_setEx = (\<lambda>key ttl str st. (Inl (Exception ''ECONNREFUSED''), st)),
       client_del = (\<lambda>keys st. (Inl (Exception ''ECONNREFUSED''), st)),
       client_keys = (\<lambda>pattern st. (Inl (Exception ''ECONNREFUSED''), st)) \<rparr>"

text \<open>An environment with the host set, caching strings as they are.\<close>

definition example_env :: "string environment" where
  "example_env =
     \<lparr> REDIS_HOST = Some ''localhost'', JSON_parse = (\<lambda>str. Inr (Some str)),
       JSON_stringify = (\<lambda>v. Inr v) \<rparr>"

definition example_store :: store where
  "example_store = [(''measurement_sheet_full:7'', ''{}''), (''customers:all'', ''[]'')]"

section \<open>Properties of the calculation engine\<close>

subsection \<open>Arithmetic helpers\<close>

lemma floor_numeral_div:
  "\<lfloor>numeral a / numeral b :: rat\<rfloor> = numeral a div numeral b"
  using floor_divide_of_int_eq[of "numeral a" "numeral b", where ?'a = rat] by simp

lemma trunc_of_int_div: "0 \<le> n \<Longrightarrow> trunc (of_int n / 3) = n div 3"
  by (simp add: trunc_def floor_divide_of_int_eq[of n 3, simplified])

lemma js_mod_of_int: "0 \<le> n \<Longrightarrow> js_mod (of_int n) 3 = of_int (n mod 3)"
proof -
  assume n: "0 \<le> n"
  have "n mod 3 = n - 3 * (n div 3)" by (simp add: minus_mult_div_eq_mod)
  then have "(of_int (n mod 3) :: rat) = of_int n - 3 * of_int (n div 3)"
    by simp
  then show ?thesis using n by (simp add: js_mod_def trunc_of_int_div)
qed

lemma js_mod_zero: "js_mod 0 3 = 0"
  by (simp add: js_mod_def trunc_def)

lemma js_mod_multiple:
  assumes "js_mod r 3 = 0" "0 \<le> r"
  shows "\<exists>k::nat. r = 3 * of_nat k"
proof -
  have t: "trunc (r / 3) = \<lfloor>r / 3\<rfloor>" using assms(2) by (simp add: trunc_def)
  have "0 \<le> \<lfloor>r / 3\<rfloor>" using assms(2) by simp
  then obtain k :: nat where k: "\<lfloor>r / 3\<rfloor> = int k" using nonneg_int_cases by blast
  have "r = 3 * of_int (trunc (r / 3))" using assms(1) by (simp add: js_mod_def)
  with t k have "r = 3 * of_nat k" by simp
  then show ?thesis ..
qed

subsection \<open>Rounding to a double\<close>

lemma round_half_even_of_int: "round_half_even (of_int m) = m"
  by (simp add: round_half_even_def)

lemma round_half_even_le: "x \<le> of_int m \<Longrightarrow> round_half_even x \<le> m"
proof -
  assume a: "x \<le> of_int m"
  show ?thesis
  proof (cases "x = of_int m")
    case True then show ?thesis by (simp add: round_half_even_of_int)
  next
    case False
    with a have "x < of_int m" by simp
    then have "\<lfloor>x\<rfloor> < m" by (simp add: floor_less_iff)
    then have "\<lfloor>x\<rfloor> + 1 \<le> m" by simp
    then show ?thesis by (simp add: round_half_even_def Let_def)
  qed
qed

lemma round_half_even_ge: "of_int m \<le> x \<Longrightarrow> m \<le> round_half_even x"
proof -
  assume "of_int m \<le> x"
  then have "m \<le> \<lfloor>x\<rfloor>" by (simp add: le_floor_iff)
  then show ?thesis by (simp add: round_half_even_def Let_def)
qed

lemma ulp_pos: "0 < ulp x"
  by (simp add: ulp_def)

lemma ulp_small: "\<bar>x\<bar> < 2 ^ 53 \<Longrightarrow> ulp x = 1 / 2 ^ grid_down x 0"
  by (simp add: ulp_def)

lemma grid_down_ge: "k \<le> grid_down x k"
proof (induction x k rule: grid_down.induct)
  case (1 x k)
  show ?case
  proof (cases "1074 \<le> k \<or> 2 ^ 52 \<le> \<bar>x\<bar> * 2 ^ k")
    case True then show ?thesis by (subst grid_down.simps) simp
  next
    case False
    with 1 have "k + 1 \<le> grid_down x (k + 1)" by simp
    with False show ?thesis by (subst grid_down.simps) simp
  qed
qed

text \<open>Below \<open>2^53\<close> every integer is a double, and below \<open>2^52\<close> every half of one.\<close>

lemma nearest_double_of_int:
  assumes "\<bar>of_int n :: rat\<bar> < 2 ^ 53"
  shows "nearest_double (of_int n) = of_int n"
proof -
  define k where "k = grid_down (of_int n) 0"
  have u: "ulp (of_int n) = 1 / 2 ^ k" using assms unfolding k_def by (rule ulp_small)
  have "(of_int n :: rat) / (1 / 2 ^ k) = of_int (n * 2 ^ k)" by simp
  then show ?thesis unfolding nearest_double_def u
    by (simp only: round_half_even_of_int) simp
qed

lemma nearest_double_half:
  assumes "\<bar>of_int n / 2 :: rat\<bar> < 2 ^ 52"
  shows "nearest_double (of_int n / 2) = of_int n / 2"
proof -
  define x :: rat where "x = of_int n / 2"
  define k where "k = grid_down x 0"
  have "\<not> (1074 \<le> (0::nat) \<or> 2 ^ 52 \<le> \<bar>x\<bar> * 2 ^ 0)" using assms by (simp add: x_def)
  then have "grid_down x 0 = grid_down x 1" by (subst grid_down.simps) simp
  then have k1: "1 \<le> k" unfolding k_def using grid_down_ge[of 1 x] by simp
  then obtain j where j: "k = Suc j" by (cases k) simp_all
  have "\<bar>x\<bar> < 2 ^ 53" using assms unfolding x_def by simp
  then have u: "ulp x = 1 / 2 ^ k" unfolding k_def by (rule ulp_small)
  have "x / (1 / 2 ^ k) = of_int (n * 2 ^ j)" by (simp add: x_def j)
  then have "nearest_double x = of_int (n * 2 ^ j) * (1 / 2 ^ k)"
    unfolding nearest_double_def u by (simp only: round_half_even_of_int)
  also have "\<dots> = x" by (simp add: x_def j)
  finally show ?thesis unfolding x_def .
qed

text \<open>Rounding does not cross an integer that is itself a double, nor zero.\<close>

lemma nearest_double_le_int:
  assumes "\<bar>y\<bar> < 2 ^ 53" "y \<le> of_int n"
  shows "nearest_double y \<le> of_int n"
proof -
  define k where "k = grid_down y 0"
  have u: "ulp y = 1 / 2 ^ k" using assms(1) unfolding k_def by (rule ulp_small)
  have "y / (1 / 2 ^ k) \<le> of_int (n * 2 ^ k)" using assms(2) by (simp add: field_simps)
  then have "round_half_even (y / (1 / 2 ^ k)) \<le> n * 2 ^ k" by (rule round_half_even_le)
  then have "(of_int (round_half_even (y / (1 / 2 ^ k))) :: rat) \<le> of_int (n * 2 ^ k)"
    by (simp only: of_int_le_iff)
  then have "(of_int (round_half_even (y / (1 / 2 ^ k))) :: rat) * (1 / 2 ^ k)
               \<le> of_int (n * 2 ^ k) * (1 / 2 ^ k)"
    by (intro mult_right_mono) simp_all
  then show ?thesis unfolding nearest_double_def u by simp
qed

lemma nearest_double_nonneg: "0 \<le> y \<Longrightarrow> 0 \<le> nearest_double y"
proof -
  assume "0 \<le> y"
  then have "of_int 0 \<le> y / ulp y" using ulp_pos[of y] by simp
  then have "0 \<le> round_half_even (y / ulp y)" by (rule round_half_even_ge)
  then show ?thesis unfolding nearest_double_def using ulp_pos[of y] by simp
qed

lemma nearest_double_nonpos: "y \<le> 0 \<Longrightarrow> nearest_double y \<le> 0"
proof -
  assume "y \<le> 0"
  then have "y / ulp y \<le> of_int 0" using ulp_pos[of y] by (simp add: divide_le_0_iff)
  then have "round_half_even (y / ulp y) \<le> 0" by (rule round_half_even_le)
  then show ?thesis unfolding nearest_double_def using ulp_pos[of y]
    by (simp add: mult_le_0_iff)
qed

lemma js_sub_of_int:
  assumes "\<bar>n - k\<bar> < 2 ^ 53"
  shows "js_sub (of_int n) (of_int k) = of_int (n - k)"
proof -
  have "\<bar>of_int (n - k) :: rat\<bar> < 2 ^ 53"
    using assms by (simp only: of_int_abs [symmetric] of_int_less_numeral_power_cancel_iff)
  then have "nearest_double (of_int (n - k)) = of_int (n - k)" by (rule nearest_double_of_int)
  then show ?thesis unfolding js_sub_def by simp
qed

lemma js_sub_le_int:
  assumes "- 1 \<le> a - b" "a - b \<le> of_int n" "n < 2 ^ 53"
  shows "js_sub a b \<le> of_int n"
proof -
  have "(of_int n :: rat) < 2 ^ 53"
    using assms(3) by (simp only: of_int_less_numeral_power_cancel_iff)
  with assms(1,2) have "\<bar>a - b\<bar> < 2 ^ 53" by (simp add: abs_less_iff)
  then show ?thesis unfolding js_sub_def using assms(2) by (rule nearest_double_le_int)
qed

subsection \<open>The decrement loop\<close>

lemma decrementLoop_stop:
  "\<not> (js_mod p 3 \<noteq> 0 \<and> 0 < p \<and> i < maxIterations) \<Longrightarrow> decrementLoop p i = (p, i)"
  by (subst decrementLoop.simps) auto

lemma decrementLoop_step:
  "js_mod p 3 \<noteq> 0 \<Longrightarrow> 0 < p \<Longrightarrow> i < maxIterations \<Longrightarrow>
   decrementLoop p i = decrementLoop (js_sub p 1) (i + 1)"
  by (subst decrementLoop.simps) simp

lemma decrement_of_int: "0 < n \<Longrightarrow> n \<le> 2 ^ 53 \<Longrightarrow> js_sub (of_int n) 1 = of_int (n - 1)"
  using js_sub_of_int[of n 1] by simp

text \<open>
  On a non-negative integer up to \<open>2^53\<close> the decrements are exact and the loop stops after
  \<open>n mod 3\<close> of them.
\<close>

lemma decrementLoop_of_int:
  assumes "0 \<le> n" "n \<le> 2 ^ 53" "i + 2 < maxIterations"
  shows "decrementLoop (of_int n) i = (of_int (n - n mod 3), i + nat (n mod 3))"
proof -
  have "n mod 3 = 0 \<or> n mod 3 = 1 \<or> n mod 3 = 2" by presburger
  then consider "n mod 3 = 0" | "n mod 3 = 1" | "n mod 3 = 2" by blast
  then show ?thesis
  proof cases
    case 1
    then show ?thesis using assms by (simp add: decrementLoop_stop js_mod_of_int)
  next
    case 2
    then have n1: "0 \<le> n - 1" "(n - 1) mod 3 = 0" "0 < n" using assms(1) by presburger+
    have "decrementLoop (of_int n) i = decrementLoop (js_sub (of_int n) 1) (i + 1)"
      using 2 n1 assms by (intro decrementLoop_step) (simp_all add: js_mod_of_int)
    also have "js_sub (of_int n) 1 = of_int (n - 1)"
      using n1(3) assms(2) by (rule decrement_of_int)
    also have "decrementLoop (of_int (n - 1)) (i + 1) = (of_int (n - 1), i + 1)"
      using n1 by (simp add: decrementLoop_stop js_mod_of_int del: of_int_diff)
    finally show ?thesis using 2 by simp
  next
    case 3
    then have n1: "0 \<le> n - 1" "(n - 1) mod 3 = 1" "0 < n" "0 < n - 1"
      and n2: "0 \<le> n - 2" "(n - 2) mod 3 = 0" using assms(1) by presburger+
    have le: "n - 1 \<le> 2 ^ 53" using assms(2) by simp
    have "decrementLoop (of_int n) i = decrementLoop (js_sub (of_int n) 1) (i + 1)"
      using 3 n1 assms by (intro decrementLoop_step) (simp_all add: js_mod_of_int)
    also have "js_sub (of_int n) 1 = of_int (n - 1)"
      using n1(3) assms(2) by (rule decrement_of_int)
    also have "decrementLoop (of_int (n - 1)) (i + 1)
                 = decrementLoop (js_sub (of_int (n - 1)) 1) (i + 1 + 1)"
      using n1 assms by (intro decrementLoop_step) (simp_all add: js_mod_of_int del: of_int_diff)
    also have "js_sub (of_int (n - 1)) 1 = of_int (n - 2)"
      using decrement_of_int[OF n1(4) le] by simp
    also have "decrementLoop (of_int (n - 2)) (i + 1 + 1) = (of_int (n - 2), i + 1 + 1)"
      using n2 by (simp add: decrementLoop_stop js_mod_of_int del: of_int_diff)
    finally show ?thesis using 3 by simp
  qed
qed

text \<open>Whatever the start value, the loop leaves by one of its three exits.\<close>

lemma decrementLoop_exit:
  "decrementLoop p i = (p', i') \<Longrightarrow> js_mod p' 3 = 0 \<or> p' \<le> 0 \<or> maxIterations \<le> i'"
proof (induction p i rule: decrementLoop.induct)
  case (1 processed iterations)
  show ?case
  proof (cases "js_mod processed 3 \<noteq> 0 \<and> 0 < processed \<and> iterations < maxIterations")
    case True
    then have "decrementLoop processed iterations
                 = decrementLoop (js_sub processed 1) (iterations + 1)"
      by (simp add: decrementLoop_step)
    with 1 True show ?thesis by simp
  next
    case False
    then have "decrementLoop processed iterations = (processed, iterations)"
      by (rule decrementLoop_stop)
    with 1(2) False show ?thesis by auto
  qed
qed

text \<open>It does not rise above an integer bound that is a double.\<close>

lemma decrementLoop_le:
  "decrementLoop p i = (p', i') \<Longrightarrow> p \<le> of_int n \<Longrightarrow> n < 2 ^ 53 \<Longrightarrow> p' \<le> of_int n"
proof (induction p i rule: decrementLoop.induct)
  case (1 processed iterations)
  show ?case
  proof (cases "js_mod processed 3 \<noteq> 0 \<and> 0 < processed \<and> iterations < maxIterations")
    case True
    then have eq: "decrementLoop processed iterations
                     = decrementLoop (js_sub processed 1) (iterations + 1)"
      by (simp add: decrementLoop_step)
    have "js_sub processed 1 \<le> of_int n"
      using True "1.prems"(2,3) by (intro js_sub_le_int) simp_all
    with 1 True eq show ?thesis by simp
  next
    case False
    then have "decrementLoop processed iterations = (processed, iterations)"
      by (rule decrementLoop_stop)
    with 1(2,3) show ?thesis by simp
  qed
qed

text \<open>
  Where the decrement leaves a positive value that is no multiple of 3 as it is, the loop
  runs to its ceiling.
\<close>

lemma decrementLoop_stuck:
  assumes "js_sub p 1 = p" "js_mod p 3 \<noteq> 0" "0 < p"
  shows "i \<le> maxIterations \<Longrightarrow> decrementLoop p i = (p, maxIterations)"
proof (induction "maxIterations - i" arbitrary: i)
  case 0
  then have "i = maxIterations" by simp
  then show ?case by (simp add: decrementLoop_stop)
next
  case (Suc d)
  then have i: "i < maxIterations" and d: "d = maxIterations - (i + 1)" by simp_all
  have "decrementLoop p i = decrementLoop (js_sub p 1) (i + 1)"
    using assms(2,3) i by (rule decrementLoop_step)
  also have "\<dots> = decrementLoop p (i + 1)" by (simp only: assms(1))
  also have "\<dots> = (p, maxIterations)" using i by (intro Suc.hyps(1)[OF d]) simp
  finally show ?case .
qed

text \<open>Below 3 the loop steps down to zero or past it, in at most three decrements.\<close>

lemma js_mod_below_three: "0 \<le> p \<Longrightarrow> p < 3 \<Longrightarrow> js_mod p 3 = p"
proof -
  assume p: "0 \<le> p" "p < 3"
  then have "\<lfloor>p / 3\<rfloor> = 0" by (simp add: floor_eq_iff)
  with p(1) show ?thesis by (simp add: js_mod_def trunc_def)
qed

lemma decrementLoop_below_three:
  "p \<le> of_nat k \<Longrightarrow> k \<le> 3 \<Longrightarrow> p < 3 \<Longrightarrow> i + k < maxIterations \<Longrightarrow>
   fst (decrementLoop p i) \<le> 0 \<and> snd (decrementLoop p i) \<le> i + k"
proof (induction k arbitrary: p i)
  case 0
  then have "decrementLoop p i = (p, i)" by (intro decrementLoop_stop) simp
  with 0 show ?case by simp
next
  case (Suc k)
  show ?case
  proof (cases "0 < p")
    case False
    then have "decrementLoop p i = (p, i)" by (intro decrementLoop_stop) simp
    with False show ?thesis by simp
  next
    case True
    then have m: "js_mod p 3 \<noteq> 0" using Suc.prems(3) by (simp add: js_mod_below_three)
    have i: "i < maxIterations" using Suc.prems(4) by simp
    have eq: "decrementLoop p i = decrementLoop (js_sub p 1) (i + 1)"
      using m True i by (rule decrementLoop_step)
    have k2: "k \<le> 2" using Suc.prems(2) by simp
    then have "(of_nat k :: rat) \<le> of_nat 2" by (simp only: of_nat_le_iff)
    then have k2': "(of_nat k :: rat) \<le> 2" by simp
    have "p - 1 \<le> of_int (int k)" using Suc.prems(1) by simp
    then have "js_sub p 1 \<le> of_int (int k)" using True k2 by (intro js_sub_le_int) simp_all
    then have le: "js_sub p 1 \<le> of_nat k" by simp
    with k2' have lt: "js_sub p 1 < 3" by simp
    have "fst (decrementLoop (js_sub p 1) (i + 1)) \<le> 0 \<and>
          snd (decrementLoop (js_sub p 1) (i + 1)) \<le> i + 1 + k"
      using le lt k2 Suc.prems(4) by (intro Suc.IH) simp_all
    with eq show ?thesis by simp
  qed
qed

subsection \<open>The adjusters\<close>

lemma adjust_result:
  assumes "r = (let (p, i) = decrementLoop v 0 in if maxIterations \<le> i then 0 else max p 0)"
  shows "0 \<le> r \<and> (r = 0 \<or> js_mod r 3 = 0)"
proof -
  obtain p i where pi: "decrementLoop v 0 = (p, i)" by (cases "decrementLoop v 0")
  from decrementLoop_exit[OF pi] assms pi
  show ?thesis by (auto simp: max_def)
qed

lemma adjust_le:
  assumes "r = (let (p, i) = decrementLoop v 0 in if maxIterations \<le> i then 0 else max p 0)"
    and "v \<le> of_int n" "0 \<le> n" "n < 2 ^ 53"
  shows "r \<le> of_int n"
proof -
  obtain p i where pi: "decrementLoop v 0 = (p, i)" by (cases "decrementLoop v 0")
  from decrementLoop_le[OF pi assms(2,4)] assms(1,3) pi
  show ?thesis by (auto simp: max_def)
qed

lemma processLength_unfold:
  "\<not> x < 3 \<Longrightarrow> processLengthForDivisibility x =
    (let (p, i) = decrementLoop (js_sub x 3) 0 in if maxIterations \<le> i then 0 else max p 0)"
  by (simp add: processLengthForDivisibility_def)

lemma processBreadth_unfold:
  "\<not> x < 2 \<Longrightarrow> processBreadthForDivisibility x =
    (let (p, i) = decrementLoop (js_sub x 2) 0 in if maxIterations \<le> i then 0 else max p 0)"
  by (simp add: processBreadthForDivisibility_def)

lemma processLength_result:
  "0 \<le> processLengthForDivisibility x \<and>
   (processLengthForDivisibility x = 0 \<or> js_mod (processLengthForDivisibility x) 3 = 0)"
proof (cases "x < 3")
  case True then show ?thesis by (simp add: processLengthForDivisibility_def)
next
  case False
  from adjust_result[OF processLength_unfold[OF False]] show ?thesis .
qed

lemma processBreadth_result:
  "0 \<le> processBreadthForDivisibility x \<and>
   (processBreadthForDivisibility x = 0 \<or> js_mod (processBreadthForDivisibility x) 3 = 0)"
proof (cases "x < 2")
  case True then show ?thesis by (simp add: processBreadthForDivisibility_def)
next
  case False
  from adjust_result[OF processBreadth_unfold[OF False]] show ?thesis .
qed

text \<open>The three cases in which the loop and the closed form agree.\<close>

lemma closedForm_of_int: "0 \<le> n \<Longrightarrow> closedForm (of_int n) = of_int (n - n mod 3)"
  by (simp add: closedForm_def js_mod_of_int)

lemma adjust_closedForm:
  assumes "0 \<le> v" "v < 3 \<or> js_mod v 3 = 0 \<or> (\<exists>n. v = of_int n \<and> n \<le> 2 ^ 53)"
  shows "(let (p, i) = decrementLoop v 0 in if maxIterations \<le> i then 0 else max p 0)
           = closedForm v"
proof -
  consider "js_mod v 3 = 0" | "v < 3" | n where "v = of_int n" "n \<le> 2 ^ 53"
    using assms(2) by blast
  then show ?thesis
  proof cases
    case 1
    then have "decrementLoop v 0 = (v, 0)" by (intro decrementLoop_stop) simp
    then show ?thesis using 1 assms(1) by (simp add: closedForm_def maxIterations_def)
  next
    case 2
    have "v \<le> of_nat 3" using 2 by simp
    then have "fst (decrementLoop v 0) \<le> 0 \<and> snd (decrementLoop v 0) \<le> 0 + 3"
      using 2 by (intro decrementLoop_below_three) (simp_all add: maxIterations_def)
    moreover obtain p i where pi: "decrementLoop v 0 = (p, i)" by (cases "decrementLoop v 0")
    ultimately have "p \<le> 0" "i \<le> 3" by simp_all
    then have "(let (p, i) = decrementLoop v 0 in if maxIterations \<le> i then 0 else max p 0) = 0"
      using pi by (simp add: maxIterations_def)
    moreover have "closedForm v = 0"
      using assms(1) 2 by (simp add: closedForm_def js_mod_below_three)
    ultimately show ?thesis by simp
  next
    case 3
    have n: "0 \<le> n" using assms(1) 3(1) by simp
    have m: "0 \<le> n - n mod 3" using n by presburger
    have "decrementLoop v 0 = (of_int (n - n mod 3), nat (n mod 3))"
      using decrementLoop_of_int[OF n 3(2), of 0] 3(1) by (simp add: maxIterations_def)
    moreover have "nat (n mod 3) < maxIterations"
      using pos_mod_bound[of 3 n] by (simp add: maxIterations_def)
    moreover have "max (of_int (n - n mod 3) :: rat) 0 = of_int (n - n mod 3)"
      using m by (simp del: of_int_diff)
    ultimately show ?thesis
      using closedForm_of_int[OF n] 3(1) by (simp del: of_int_diff)
  qed
qed

text \<open>On an integer up to \<open>2^53\<close> the loop makes at most two iterations.\<close>

lemma iterations_of_int:
  assumes "n \<le> 2 ^ 53" "0 < k"
  shows "snd (decrementLoop (js_sub (of_int n) (of_int k)) 0) \<le> 2"
proof (cases "k \<le> n")
  case True
  then have d: "0 \<le> n - k" "n - k \<le> 2 ^ 53" "\<bar>n - k\<bar> < 2 ^ 53" using assms by simp_all
  have "(n - k) mod 3 \<le> 2" by presburger
  then show ?thesis
    using decrementLoop_of_int[OF d(1,2), of 0] js_sub_of_int[OF d(3)]
    by (simp add: maxIterations_def)
next
  case False
  then have "js_sub (of_int n) (of_int k) \<le> 0"
    unfolding js_sub_def by (intro nearest_double_nonpos) simp
  then have "decrementLoop (js_sub (of_int n) (of_int k)) 0 = (js_sub (of_int n) (of_int k), 0)"
    by (intro decrementLoop_stop) simp
  then show ?thesis by simp
qed
subsection \<open>Evaluation on numerals\<close>

lemma floor_one_div: "\<lfloor>1 / numeral b :: rat\<rfloor> = 1 div numeral b"
  using floor_divide_of_int_eq[of 1 "numeral b", where ?'a = rat] by simp

text \<open>The numbers of the examples are doubles: integers, or halves of integers.\<close>

lemma nearest_double_numeral:
  "numeral k < (2::rat) ^ 53 \<Longrightarrow> nearest_double (numeral k) = numeral k"
  using nearest_double_of_int[of "numeral k"] by simp

lemma nearest_double_neg_numeral:
  "numeral k < (2::rat) ^ 53 \<Longrightarrow> nearest_double (- numeral k) = - numeral k"
  using nearest_double_of_int[of "- numeral k"] by simp

lemma nearest_double_units:
  "nearest_double 0 = 0" "nearest_double 1 = 1" "nearest_double (- 1) = - 1"
  using nearest_double_of_int[of 0] nearest_double_of_int[of 1] nearest_double_of_int[of "- 1"]
  by simp_all

lemma nearest_double_half_numeral:
  "numeral k < (2::rat) ^ 53 \<Longrightarrow> nearest_double (numeral k / 2) = numeral k / 2"
  using nearest_double_half[of "numeral k"] by simp

lemma nearest_double_halves:
  "nearest_double (1 / 2) = 1 / 2" "nearest_double (- (1 / 2)) = - (1 / 2)"
  using nearest_double_half[of 1] nearest_double_half[of "- 1"] by simp_all

lemmas loop_eval =
  decrementLoop.simps js_mod_def trunc_def maxIterations_def floor_numeral_div floor_one_div
  ceiling_def js_sub_def nearest_double_numeral nearest_double_neg_numeral nearest_double_units
  nearest_double_half_numeral nearest_double_halves

lemmas strategy_eval =
  calculateRetail_def calculateGraniteShops_def calculateBuilders_def calculateExporters_def
  calculateOutstationParties_def processLengthForDivisibility_def
  processBreadthForDivisibility_def isFinite_def MAX_VALUE_def Math_round_def

lemmas validation_eval =
  validationErrors_def dimensionErrors_def customerTypeErrors_def CUSTOMER_TYPES_def

lemmas engine_eval =
  calculateSquareFeet_def calculateSquareFeet_try_def route_def rethrow_def new_Error_def

subsection \<open>The strategies under the validation precondition\<close>

lemma MAX_VALUE_big: "(10000 * 10000 / 144 :: rat) \<le> MAX_VALUE"
  by (simp add: MAX_VALUE_def)

lemma area_ok:
  assumes "0 \<le> fl" "fl \<le> 10000" "0 \<le> fb" "fb \<le> 10000"
  shows "isFinite (fl * fb / 144) \<and> \<not> fl * fb / 144 < 0"
proof -
  have "fl * fb \<le> 10000 * 10000" using assms by (intro mult_mono) simp_all
  then have "fl * fb / 144 \<le> 10000 * 10000 / 144" by (intro divide_right_mono) simp_all
  then have le: "fl * fb / 144 \<le> MAX_VALUE" using MAX_VALUE_big by (rule order_trans)
  have nn: "0 \<le> fl * fb / 144" using assms by simp
  then have "\<bar>fl * fb / 144\<bar> = fl * fb / 144" by (rule abs_of_nonneg)
  with le nn show ?thesis unfolding isFinite_def by linarith
qed

lemma Math_round_nonneg: "0 \<le> x \<Longrightarrow> 0 \<le> Math_round (x * 100) / 100"
  by (simp add: Math_round_def)

lemma strategy_returns:
  assumes "0 \<le> fl" "fl \<le> 10000" "0 \<le> fb" "fb \<le> 10000"
  shows "\<exists>r. (if \<not> isFinite (fl * fb / 144) \<or> fl * fb / 144 < 0 then Inl e
              else Inr \<lparr> finalLength = fl, finalBreadth = fb,
                         squareFeet = Math_round (fl * fb / 144 * 100) / 100 \<rparr>) = Inr r
             \<and> 0 \<le> squareFeet r"
proof -
  have a: "isFinite (fl * fb / 144)" "\<not> fl * fb / 144 < 0"
    using area_ok[OF assms] by simp_all
  then have "0 \<le> fl * fb / 144" by simp
  then have n: "0 \<le> Math_round (fl * fb / 144 * 100) / 100" by (rule Math_round_nonneg)
  show ?thesis using a n by (simp del: times_divide_eq_left times_divide_eq_right)
qed

lemma processLength_bounds:
  assumes "0 < l" "l \<le> 10000"
  shows "0 \<le> processLengthForDivisibility l" "processLengthForDivisibility l \<le> 10000"
proof -
  have "0 \<le> processLengthForDivisibility l" using processLength_result[of l] by simp
  moreover have "processLengthForDivisibility l \<le> 10000"
  proof (cases "l < 3")
    case True then show ?thesis by (simp add: processLengthForDivisibility_def)
  next
    case False
    have "js_sub l 3 \<le> of_int 9997" using False assms(2) by (intro js_sub_le_int) simp_all
    from adjust_le[OF processLength_unfold[OF False] this]
    show ?thesis by simp
  qed
  ultimately show "0 \<le> processLengthForDivisibility l"
    "processLengthForDivisibility l \<le> 10000" by simp_all
qed

lemma processBreadth_bounds:
  assumes "0 < b" "b \<le> 10000"
  shows "0 \<le> processBreadthForDivisibility b" "processBreadthForDivisibility b \<le> 10000"
proof -
  have "0 \<le> processBreadthForDivisibility b" using processBreadth_result[of b] by simp
  moreover have "processBreadthForDivisibility b \<le> 10000"
  proof (cases "b < 2")
    case True then show ?thesis by (simp add: processBreadthForDivisibility_def)
  next
    case False
    have "js_sub b 2 \<le> of_int 9998" using False assms(2) by (intro js_sub_le_int) simp_all
    from adjust_le[OF processBreadth_unfold[OF False] this]
    show ?thesis by simp
  qed
  ultimately show "0 \<le> processBreadthForDivisibility b"
    "processBreadthForDivisibility b \<le> 10000" by simp_all
qed

lemma retail_returns:
  assumes "0 < l" "l \<le> 10000" "0 < b" "b \<le> 10000"
  shows "\<exists>r. calculateRetail l b = Inr r \<and> 0 \<le> squareFeet r"
proof -
  have lb: "0 \<le> l" "0 \<le> b" using assms by auto
  show ?thesis unfolding calculateRetail_def Let_def
    by (rule strategy_returns[OF lb(1) assms(2) lb(2) assms(4)])
qed

lemma graniteShops_returns:
  assumes "0 < l" "l \<le> 10000" "0 < b" "b \<le> 10000"
  shows "\<exists>r. calculateGraniteShops l b = Inr r \<and> 0 \<le> squareFeet r"
  unfolding calculateGraniteShops_def Let_def
  by (rule strategy_returns[OF processLength_bounds[OF assms(1,2)]
                               processBreadth_bounds[OF assms(3,4)]])

lemma builders_returns:
  assumes "0 < l" "l \<le> 10000" "0 < b" "b \<le> 10000"
  shows "\<exists>r. calculateBuilders l b = Inr r \<and> 0 \<le> squareFeet r"
proof -
  have b: "0 \<le> b" using assms by auto
  show ?thesis unfolding calculateBuilders_def Let_def
    by (rule strategy_returns[OF processLength_bounds[OF assms(1,2)] b assms(4)])
qed

lemma exporters_returns:
  assumes "0 < l" "l \<le> 10000" "0 < b" "b \<le> 10000"
  shows "\<exists>r. calculateExporters l b = Inr r \<and> 0 \<le> squareFeet r"
proof -
  have el: "0 \<le> max (l - 3) 0" "max (l - 3) 0 \<le> 10000" using assms by auto
  have eb: "0 \<le> max (b - 2) 0" "max (b - 2) 0 \<le> 10000" using assms by auto
  show ?thesis unfolding calculateExporters_def Let_def
    by (rule strategy_returns[OF el eb])
qed

subsection \<open>Validation\<close>

lemma dimensionErrors_length:
  "length (dimensionErrors name v) = (if validDimension v then 0 else 1)"
  by (cases "parseFloat v") (auto simp: dimensionErrors_def validDimension_def)

lemma customerTypeErrors_length:
  "length (customerTypeErrors t) = (if recognizedCustomerType t then 0 else 1)"
  by (cases t) (auto simp: customerTypeErrors_def recognizedCustomerType_def CUSTOMER_TYPES_def)

lemma validationErrors_length:
  "length (validationErrors l b t) =
     (if validDimension l then 0 else 1) + (if validDimension b then 0 else 1)
       + (if recognizedCustomerType t then 0 else (1::nat))"
  unfolding validationErrors_def length_append dimensionErrors_length customerTypeErrors_length
  by simp

lemma validated_finite:
  assumes "validationErrors l b t = []"
  shows "\<exists>x y. parseFloat l = Finite x \<and> 0 < x \<and> x \<le> 10000 \<and>
               parseFloat b = Finite y \<and> 0 < y \<and> y \<le> 10000 \<and> recognizedCustomerType t"
proof -
  have "length (validationErrors l b t) = 0" using assms by simp
  then have v: "validDimension l" "validDimension b" "recognizedCustomerType t"
    unfolding validationErrors_length by (auto split: if_splits)
  from v(1) obtain x where "parseFloat l = Finite x" "0 < x" "x \<le> 10000"
    by (auto simp: validDimension_def split: js_number.splits)
  moreover from v(2) obtain y where "parseFloat b = Finite y" "0 < y" "y \<le> 10000"
    by (auto simp: validDimension_def split: js_number.splits)
  ultimately show ?thesis using v(3) by blast
qed

lemma route_cases:
  "route (Some ''retail'') x y = calculateRetail x y"
  "route (Some ''granite_shops'') x y = calculateGraniteShops x y"
  "route (Some ''builders'') x y = calculateBuilders x y"
  "route (Some ''exporters'') x y = calculateExporters x y"
  "route (Some ''outstation_parties'') x y = calculateGraniteShops x y"
  by (simp_all add: route_def calculateOutstationParties_def)

lemma recognized_cases:
  assumes "recognizedCustomerType t"
  shows "t = Some ''retail'' \<or> t = Some ''granite_shops'' \<or> t = Some ''builders''
         \<or> t = Some ''outstation_parties'' \<or> t = Some ''exporters''"
proof (cases t)
  case None
  with assms show ?thesis by (simp add: recognizedCustomerType_def)
next
  case (Some c)
  with assms have "c \<in> set CUSTOMER_TYPES" by (simp add: recognizedCustomerType_def)
  then have "c = ''retail'' \<or> c = ''granite_shops'' \<or> c = ''builders''
         \<or> c = ''outstation_parties'' \<or> c = ''exporters''"
    by (simp add: CUSTOMER_TYPES_def)
  with Some show ?thesis by simp
qed

lemma route_returns:
  assumes "recognizedCustomerType t" "0 < x" "x \<le> 10000" "0 < y" "y \<le> 10000"
  shows "\<exists>r. route t x y = Inr r"
proof -
  have 1: "\<exists>r. calculateRetail x y = Inr r" using retail_returns[OF assms(2-5)] by blast
  have 2: "\<exists>r. calculateGraniteShops x y = Inr r"
    using graniteShops_returns[OF assms(2-5)] by blast
  have 3: "\<exists>r. calculateBuilders x y = Inr r" using builders_returns[OF assms(2-5)] by blast
  have 4: "\<exists>r. calculateExporters x y = Inr r" using exporters_returns[OF assms(2-5)] by blast
  from recognized_cases[OF assms(1)] show ?thesis
  proof (elim disjE)
    assume "t = Some ''retail''" then show ?thesis using 1 by (simp only: route_cases)
  next
    assume "t = Some ''granite_shops''" then show ?thesis using 2 by (simp only: route_cases)
  next
    assume "t = Some ''builders''" then show ?thesis using 3 by (simp only: route_cases)
  next
    assume "t = Some ''outstation_parties''" then show ?thesis using 2 by (simp only: route_cases)
  next
    assume "t = Some ''exporters''" then show ?thesis using 4 by (simp only: route_cases)
  qed
qed

lemma calculateSquareFeet_invalid:
  assumes "validationErrors l b t \<noteq> []"
  shows "calculateSquareFeet l b t =
           Inl (JsError ''Validation failed'' (Some ''validation'')
                        (Some (validationErrors l b t)) None)"
  using assms by (simp add: calculateSquareFeet_def calculateSquareFeet_try_def rethrow_def)

lemma calculateSquareFeet_valid:
  assumes "validationErrors l b t = []"
  shows "\<exists>r. calculateSquareFeet l b t = Inr r"
proof -
  from validated_finite[OF assms] obtain x y where
    xy: "parseFloat l = Finite x" "0 < x" "x \<le> 10000"
        "parseFloat b = Finite y" "0 < y" "y \<le> 10000" "recognizedCustomerType t"
    by blast
  from route_returns[OF xy(7) xy(2,3) xy(5,6)] obtain r where "route t x y = Inr r" ..
  then show ?thesis using assms xy(1,4)
    by (simp add: calculateSquareFeet_def calculateSquareFeet_try_def)
qed

section \<open>The claims about the calculation engine\<close>

text \<open>
  C1. On the five concrete inputs \<open>calculateSquareFeet\<close> returns the stated final length,
  final breadth and area: (144, 144, retail) gives 144, 144, 144.00; (150, 146, granite_shops)
  gives 147, 144, 147.00; (149, 145, granite_shops) gives 144, 141, 141.00;
  (150, 100, builders) gives 147, 100, 102.08; (3, 2, exporters) gives 0, 0, 0.
\<close>

theorem calculateSquareFeet_concrete_cases:
  "calculateSquareFeet (JSNumber (Finite 144)) (JSNumber (Finite 144)) (Some ''retail'')
     = Inr \<lparr> finalLength = 144, finalBreadth = 144, squareFeet = 144 \<rparr> \<and>
   calculateSquareFeet (JSNumber (Finite 150)) (JSNumber (Finite 146)) (Some ''granite_shops'')
     = Inr \<lparr> finalLength = 147, finalBreadth = 144, squareFeet = 147 \<rparr> \<and>
   calculateSquareFeet (JSNumber (Finite 149)) (JSNumber (Finite 145)) (Some ''granite_shops'')
     = Inr \<lparr> finalLength = 144, finalBreadth = 141, squareFeet = 141 \<rparr> \<and>
   calculateSquareFeet (JSNumber (Finite 150)) (JSNumber (Finite 100)) (Some ''builders'')
     = Inr \<lparr> finalLength = 147, finalBreadth = 100, squareFeet = 10208 / 100 \<rparr> \<and>
   calculateSquareFeet (JSNumber (Finite 3)) (JSNumber (Finite 2)) (Some ''exporters'')
     = Inr \<lparr> finalLength = 0, finalBreadth = 0, squareFeet = 0 \<rparr>"
proof (intro conjI)
  show "calculateSquareFeet (JSNumber (Finite 144)) (JSNumber (Finite 144)) (Some ''retail'')
     = Inr \<lparr> finalLength = 144, finalBreadth = 144, squareFeet = 144 \<rparr>"
    by (simp add: engine_eval validation_eval strategy_eval loop_eval)
  show "calculateSquareFeet (JSNumber (Finite 150)) (JSNumber (Finite 146)) (Some ''granite_shops'')
     = Inr \<lparr> finalLength = 147, finalBreadth = 144, squareFeet = 147 \<rparr>"
    by (simp add: engine_eval validation_eval strategy_eval loop_eval)
  show "calculateSquareFeet (JSNumber (Finite 149)) (JSNumber (Finite 145)) (Some ''granite_shops'')
     = Inr \<lparr> finalLength = 144, finalBreadth = 141, squareFeet = 141 \<rparr>"
    by (simp add: engine_eval validation_eval strategy_eval loop_eval)
  show "calculateSquareFeet (JSNumber (Finite 150)) (JSNumber (Finite 100)) (Some ''builders'')
     = Inr \<lparr> finalLength = 147, finalBreadth = 100, squareFeet = 10208 / 100 \<rparr>"
    by (simp add: engine_eval validation_eval strategy_eval loop_eval)
  show "calculateSquareFeet (JSNumber (Finite 3)) (JSNumber (Finite 2)) (Some ''exporters'')
     = Inr \<lparr> finalLength = 0, finalBreadth = 0, squareFeet = 0 \<rparr>"
    by (simp add: engine_eval validation_eval strategy_eval loop_eval)
qed

text \<open>
  C2. For every number, each divisibility adjuster returns 0 or a value \<open>r\<close> with
  \<open>r % 3 = 0\<close>; the value is never negative, so it is a multiple \<open>3 * k\<close> of three with
  \<open>k\<close> a natural number, whichever exit the function takes.
\<close>

theorem adjusters_return_multiple_of_three:
  "(processLengthForDivisibility x = 0 \<or> js_mod (processLengthForDivisibility x) 3 = 0) \<and>
   (processBreadthForDivisibility x = 0 \<or> js_mod (processBreadthForDivisibility x) 3 = 0) \<and>
   (\<exists>k::nat. processLengthForDivisibility x = 3 * of_nat k) \<and>
   (\<exists>k::nat. processBreadthForDivisibility x = 3 * of_nat k)"
proof -
  note l = processLength_result[of x] and b = processBreadth_result[of x]
  have zero: "\<exists>k::nat. (0::rat) = 3 * of_nat k" by (rule exI[of _ 0]) simp
  have "\<exists>k::nat. processLengthForDivisibility x = 3 * of_nat k"
    using l js_mod_multiple[of "processLengthForDivisibility x"] zero by metis
  moreover have "\<exists>k::nat. processBreadthForDivisibility x = 3 * of_nat k"
    using b js_mod_multiple[of "processBreadthForDivisibility x"] zero by metis
  ultimately show ?thesis using l b by blast
qed

text \<open>
  C3, as stated: for every \<open>v > 0\<close> the loop-based adjuster equals the closed form
  \<open>v - (v % 3)\<close>. It fails at the length 7.5: there \<open>v = 4.5 > 0\<close>, the loop steps down
  4.5, 3.5, \<dots>, 0.5, -0.5 and the adjuster returns 0, while the closed form is 3.
\<close>

theorem adjuster_closed_form_counterexample:
  "0 < js_sub (15 / 2) 3 \<and> js_sub (15 / 2) 3 = 9 / 2 \<and> (3 :: rat) \<le> 15 / 2 \<and>
   processLengthForDivisibility (15 / 2) = 0 \<and> closedForm (js_sub (15 / 2) 3) = 3 \<and>
   processLengthForDivisibility (15 / 2) \<noteq> closedForm (js_sub (15 / 2) 3)"
  by (simp add: processLengthForDivisibility_def closedForm_def loop_eval)

text \<open>
  C3, amended: for every raw input at or above the subtrahend (length at least 3, breadth at
  least 2), with \<open>v\<close> the difference \<open>raw - subtrahend\<close> as the code computes it, the
  loop-based adjuster equals the closed form \<open>v - (v % 3)\<close> whenever \<open>v\<close> is below 3, or
  is a multiple of 3, or is an integer not above \<open>2^53\<close> (up to which the decrements of
  the loop are exact). A non-integer \<open>v\<close> of 3 or more is excluded, as at 7.5 above; so are
  the integers above \<open>2^53\<close> that are no multiple of 3, where a decrement is rounded.
\<close>

theorem adjuster_closed_form_where_exact:
  assumes "3 \<le> len" "v = js_sub len 3"
    and "v < 3 \<or> js_mod v 3 = 0 \<or> (\<exists>n. v = of_int n \<and> n \<le> 2 ^ 53)"
    and "2 \<le> breadth" "w = js_sub breadth 2"
    and "w < 3 \<or> js_mod w 3 = 0 \<or> (\<exists>n. w = of_int n \<and> n \<le> 2 ^ 53)"
  shows "processLengthForDivisibility len = closedForm v \<and>
         processBreadthForDivisibility breadth = closedForm w"
proof
  have v: "0 \<le> v" unfolding assms(2) js_sub_def using assms(1)
    by (intro nearest_double_nonneg) simp
  have "\<not> len < 3" using assms(1) by simp
  from processLength_unfold[OF this] adjust_closedForm[OF v assms(3)]
  show "processLengthForDivisibility len = closedForm v" by (simp only: assms(2))
  have w: "0 \<le> w" unfolding assms(5) js_sub_def using assms(4)
    by (intro nearest_double_nonneg) simp
  have "\<not> breadth < 2" using assms(4) by simp
  from processBreadth_unfold[OF this] adjust_closedForm[OF w assms(6)]
  show "processBreadthForDivisibility breadth = closedForm w" by (simp only: assms(5))
qed

text \<open>
  An integer difference for the length (149 gives 146, adjusted to 144) and a fractional one
  below 3 for the breadth (3.5 gives 1.5, adjusted to 0).
\<close>

theorem adjuster_closed_form_where_exact_witness:
  "(3::rat) \<le> 149 \<and> js_sub 149 3 = of_int 146 \<and> (146::int) \<le> 2 ^ 53 \<and>
   (2::rat) \<le> 7 / 2 \<and> js_sub (7 / 2) 2 = 3 / 2 \<and> (3 / 2 :: rat) < 3 \<and>
   processLengthForDivisibility 149 = closedForm 146 \<and>
   processLengthForDivisibility 149 = 144 \<and>
   processBreadthForDivisibility (7 / 2) = closedForm (3 / 2) \<and>
   processBreadthForDivisibility (7 / 2) = 0"
proof -
  have h: "js_sub 149 3 = of_int 146" "js_sub (7 / 2) 2 = 3 / 2" by (simp_all add: loop_eval)
  have "\<exists>n. (146::rat) = of_int n \<and> n \<le> 2 ^ 53" by (rule exI[of _ 146]) simp
  then have hv: "(146::rat) < 3 \<or> js_mod 146 3 = 0 \<or> (\<exists>n. (146::rat) = of_int n \<and> n \<le> 2 ^ 53)"
    by blast
  have hw: "(3 / 2 :: rat) < 3 \<or> js_mod (3 / 2) 3 = 0 \<or> (\<exists>n. (3 / 2 :: rat) = of_int n \<and> n \<le> 2 ^ 53)"
    by simp
  have "(3::rat) \<le> 149" "(2::rat) \<le> 7 / 2" "(146::rat) = js_sub 149 3"
    "(3 / 2 :: rat) = js_sub (7 / 2) 2"
    using h by simp_all
  from adjuster_closed_form_where_exact[OF this(1) this(3) hv this(2) this(4) hw] h
  show ?thesis by (simp add: closedForm_def loop_eval)
qed

text \<open>
  C4. \<open>calculateSquareFeet\<close> collects every validation violation before it fails: the
  list of messages has one entry for each of the three arguments that is invalid (so three
  when length, breadth and customer type are all invalid); whenever the list is not empty
  the one error thrown is \<open>Validation failed\<close> of type \<open>validation\<close> carrying the whole
  list; no other error ever leaves the function, so an unrecognized customer type is a
  validation error and never the \<open>unsupported_customer_type\<close> one. In particular
  (0, 100, retail), (-1, 100, retail) and (100, 100, unknown) each throw a validation error.
\<close>

theorem validation_collects_every_violation:
  "length (validationErrors l b t) =
     (if validDimension l then 0 else 1) + (if validDimension b then 0 else 1)
       + (if recognizedCustomerType t then 0 else (1::nat)) \<and>
   (validationErrors l b t \<noteq> [] \<longrightarrow>
      calculateSquareFeet l b t =
        Inl (JsError ''Validation failed'' (Some ''validation'')
                     (Some (validationErrors l b t)) None)) \<and>
   (\<forall>e. calculateSquareFeet l b t = Inl e \<longrightarrow>
      error_type e = Some ''validation'' \<and> details e = Some (validationErrors l b t)) \<and>
   calculateSquareFeet (JSNumber (Finite 0)) (JSNumber (Finite 100)) (Some ''retail'') =
     Inl (JsError ''Validation failed'' (Some ''validation'')
                  (Some [''Length must be greater than 0'']) None) \<and>
   calculateSquareFeet (JSNumber (Finite (- 1))) (JSNumber (Finite 100)) (Some ''retail'') =
     Inl (JsError ''Validation failed'' (Some ''validation'')
                  (Some [''Length must be greater than 0'']) None) \<and>
   calculateSquareFeet (JSNumber (Finite 100)) (JSNumber (Finite 100)) (Some ''unknown'') =
     Inl (JsError ''Validation failed'' (Some ''validation'')
                  (Some [''Invalid customer type: unknown. Valid types are: retail, granite_shops, builders, outstation_parties, exporters'']) None)"
proof (intro conjI)
  show "length (validationErrors l b t) =
     (if validDimension l then 0 else 1) + (if validDimension b then 0 else 1)
       + (if recognizedCustomerType t then 0 else (1::nat))"
    by (rule validationErrors_length)
  show "validationErrors l b t \<noteq> [] \<longrightarrow>
      calculateSquareFeet l b t =
        Inl (JsError ''Validation failed'' (Some ''validation'')
                     (Some (validationErrors l b t)) None)"
    using calculateSquareFeet_invalid by blast
  show "\<forall>e. calculateSquareFeet l b t = Inl e \<longrightarrow>
      error_type e = Some ''validation'' \<and> details e = Some (validationErrors l b t)"
  proof (cases "validationErrors l b t = []")
    case True
    from calculateSquareFeet_valid[OF True] show ?thesis by auto
  next
    case False
    from calculateSquareFeet_invalid[OF False] show ?thesis by simp
  qed
  show "calculateSquareFeet (JSNumber (Finite 0)) (JSNumber (Finite 100)) (Some ''retail'') =
     Inl (JsError ''Validation failed'' (Some ''validation'')
                  (Some [''Length must be greater than 0'']) None)"
    by (simp add: engine_eval validation_eval)
  show "calculateSquareFeet (JSNumber (Finite (- 1))) (JSNumber (Finite 100)) (Some ''retail'') =
     Inl (JsError ''Validation failed'' (Some ''validation'')
                  (Some [''Length must be greater than 0'']) None)"
    by (simp add: engine_eval validation_eval)
  show "calculateSquareFeet (JSNumber (Finite 100)) (JSNumber (Finite 100)) (Some ''unknown'') =
     Inl (JsError ''Validation failed'' (Some ''validation'')
                  (Some [''Invalid customer type: unknown. Valid types are: retail, granite_shops, builders, outstation_parties, exporters'']) None)"
    by (simp add: engine_eval validation_eval)
qed

text \<open>
  The three arguments all invalid: a zero length, a missing breadth and an unknown type give
  one error with three messages.
\<close>

theorem validation_collects_every_violation_witness:
  "validationErrors (JSNumber (Finite 0)) JSNull (Some ''unknown'') \<noteq> [] \<and>
   \<not> validDimension (JSNumber (Finite 0)) \<and> \<not> validDimension JSNull \<and>
   \<not> recognizedCustomerType (Some ''unknown'') \<and>
   length (validationErrors (JSNumber (Finite 0)) JSNull (Some ''unknown'')) = 3 \<and>
   calculateSquareFeet (JSNumber (Finite 0)) JSNull (Some ''unknown'') =
     Inl (JsError ''Validation failed'' (Some ''validation'')
            (Some [''Length must be greater than 0'', ''Breadth is required'',
                   ''Invalid customer type: unknown. Valid types are: retail, granite_shops, builders, outstation_parties, exporters''])
            None)"
  using validation_collects_every_violation
          [of "JSNumber (Finite 0)" JSNull "Some ''unknown''"]
  by (simp add: validation_eval validDimension_def recognizedCustomerType_def)

text \<open>
  C5. For every length and breadth that pass validation (greater than 0 and at most 10000)
  no strategy throws: the area is finite and not negative, so the defensive
  \<open>Invalid calculation result\<close> branch of \<open>calculateRetail\<close>, \<open>calculateGraniteShops\<close>,
  \<open>calculateBuilders\<close> and \<open>calculateExporters\<close> is not taken and each returns a result,
  whose rounded area is not negative either.
\<close>

theorem strategies_never_throw:
  assumes "0 < l" "l \<le> 10000" "0 < b" "b \<le> 10000"
  shows "(\<exists>r. calculateRetail l b = Inr r \<and> 0 \<le> squareFeet r) \<and>
         (\<exists>r. calculateGraniteShops l b = Inr r \<and> 0 \<le> squareFeet r) \<and>
         (\<exists>r. calculateBuilders l b = Inr r \<and> 0 \<le> squareFeet r) \<and>
         (\<exists>r. calculateExporters l b = Inr r \<and> 0 \<le> squareFeet r) \<and>
         isFinite (l * b / 144) \<and> 0 \<le> l * b / 144 \<and>
         isFinite (processLengthForDivisibility l * processBreadthForDivisibility b / 144) \<and>
         0 \<le> processLengthForDivisibility l * processBreadthForDivisibility b / 144 \<and>
         isFinite (processLengthForDivisibility l * b / 144) \<and>
         0 \<le> processLengthForDivisibility l * b / 144 \<and>
         isFinite (max (l - 3) 0 * max (b - 2) 0 / 144) \<and>
         0 \<le> max (l - 3) 0 * max (b - 2) 0 / 144"
proof -
  have lb: "0 \<le> l" "0 \<le> b" using assms by auto
  have el: "0 \<le> max (l - 3) 0" "max (l - 3) 0 \<le> 10000" using assms by auto
  have eb: "0 \<le> max (b - 2) 0" "max (b - 2) 0 \<le> 10000" using assms by auto
  note pl = processLength_bounds[OF assms(1,2)] and pb = processBreadth_bounds[OF assms(3,4)]
  have a1: "isFinite (l * b / 144) \<and> 0 \<le> l * b / 144"
    using area_ok[OF lb(1) assms(2) lb(2) assms(4)] by (simp add: not_less)
  have a2: "isFinite (processLengthForDivisibility l * processBreadthForDivisibility b / 144) \<and>
         0 \<le> processLengthForDivisibility l * processBreadthForDivisibility b / 144"
    using area_ok[OF pl pb] by (simp add: not_less)
  have a3: "isFinite (processLengthForDivisibility l * b / 144) \<and>
         0 \<le> processLengthForDivisibility l * b / 144"
    using area_ok[OF pl lb(2) assms(4)] by (simp add: not_less)
  have a4: "isFinite (max (l - 3) 0 * max (b - 2) 0 / 144) \<and>
         0 \<le> max (l - 3) 0 * max (b - 2) 0 / 144"
    using area_ok[OF el eb] by (simp only: not_less)
  from retail_returns[OF assms] graniteShops_returns[OF assms] builders_returns[OF assms]
    exporters_returns[OF assms] a1 a2 a3 a4
  show ?thesis by (intro conjI) (erule conjunct1 conjunct2 | assumption)+
qed

theorem strategies_never_throw_witness:
  "(0::rat) < 150 \<and> (150::rat) \<le> 10000 \<and> (0::rat) < 100 \<and> (100::rat) \<le> 10000 \<and>
   (\<exists>r. calculateRetail 150 100 = Inr r \<and> 0 \<le> squareFeet r) \<and>
   (\<exists>r. calculateGraniteShops 150 100 = Inr r \<and> 0 \<le> squareFeet r) \<and>
   (\<exists>r. calculateBuilders 150 100 = Inr r \<and> 0 \<le> squareFeet r) \<and>
   (\<exists>r. calculateExporters 150 100 = Inr r \<and> 0 \<le> squareFeet r)"
  using strategies_never_throw[of 150 100] by simp

text \<open>
  C6. \<open>calculateOutstationParties\<close> returns exactly what \<open>calculateGraniteShops\<close> returns,
  for every length and breadth: the same final length, final breadth and area; so do the
  two customer types through \<open>calculateSquareFeet\<close>.
\<close>

theorem outstationParties_same_as_graniteShops:
  "calculateOutstationParties l b = calculateGraniteShops l b \<and>
   calculateSquareFeet x y (Some ''outstation_parties'') =
     calculateSquareFeet x y (Some ''granite_shops'')"
proof
  show "calculateOutstationParties l b = calculateGraniteShops l b"
    by (simp add: calculateOutstationParties_def)
  have c: "customerTypeErrors (Some ''outstation_parties'') = []"
    "customerTypeErrors (Some ''granite_shops'') = []"
    by (simp_all add: customerTypeErrors_def CUSTOMER_TYPES_def)
  have v: "validationErrors x y (Some ''outstation_parties'') =
           validationErrors x y (Some ''granite_shops'')"
    by (simp add: validationErrors_def c)
  have r: "route (Some ''outstation_parties'') = route (Some ''granite_shops'')"
    by (intro ext) (simp only: route_cases)
  show "calculateSquareFeet x y (Some ''outstation_parties'') =
     calculateSquareFeet x y (Some ''granite_shops'')"
    unfolding calculateSquareFeet_def calculateSquareFeet_try_def v r ..
qed

theorem outstationParties_same_as_graniteShops_witness:
  "calculateOutstationParties 150 146 = calculateGraniteShops 150 146 \<and>
   calculateOutstationParties 150 146
     = Inr \<lparr> finalLength = 147, finalBreadth = 144, squareFeet = 147 \<rparr> \<and>
   calculateSquareFeet (JSNumber (Finite 150)) (JSNumber (Finite 146)) (Some ''outstation_parties'')
     = calculateSquareFeet (JSNumber (Finite 150)) (JSNumber (Finite 146)) (Some ''granite_shops'')"
  using outstationParties_same_as_graniteShops
          [of 150 146 "JSNumber (Finite 150)" "JSNumber (Finite 146)"]
  by (simp add: strategy_eval loop_eval)

text \<open>
  C10, as stated: for every integer raw input the decrement loop makes at most 2 iterations.
  It fails at the integer 10000000000000002, which is a double: the difference
  9999999999999999 is not one and rounds to \<open>10^16\<close>, which leaves the remainder 1; each
  decrement of \<open>10^16\<close> rounds back to \<open>10^16\<close>, so the loop runs its 100 iterations and
  the adjuster returns 0 by the ceiling branch.
\<close>

theorem ceiling_reached_on_large_integer:
  "(10000000000000002 :: rat) = of_int 10000000000000002 \<and>
   nearest_double 10000000000000002 = 10000000000000002 \<and>
   js_sub 10000000000000002 3 = 10000000000000000 \<and>
   js_sub 10000000000000000 1 = 10000000000000000 \<and>
   decrementLoop (js_sub 10000000000000002 3) 0 = (10000000000000000, maxIterations) \<and>
   \<not> snd (decrementLoop (js_sub 10000000000000002 3) 0) \<le> 2 \<and>
   processLengthForDivisibility 10000000000000002 = 0"
proof -
  have r: "nearest_double 10000000000000002 = 10000000000000002"
    "nearest_double 9999999999999999 = 10000000000000000"
    by (simp_all add: nearest_double_def ulp_def grid_up.simps round_half_even_def Let_def
          floor_numeral_div)
  have s: "js_sub 10000000000000002 3 = 10000000000000000"
    "js_sub 10000000000000000 1 = 10000000000000000"
    by (simp_all add: js_sub_def r)
  have m: "js_mod 10000000000000000 3 \<noteq> 0"
    by (simp add: js_mod_def trunc_def floor_numeral_div)
  have l: "decrementLoop (js_sub 10000000000000002 3) 0 = (10000000000000000, maxIterations)"
    unfolding s(1) using s(2) m by (rule decrementLoop_stuck) simp_all
  have p: "processLengthForDivisibility 10000000000000002 = 0"
    by (simp add: processLengthForDivisibility_def l)
  have i: "\<not> snd (decrementLoop (js_sub 10000000000000002 3) 0) \<le> 2"
    by (simp add: l maxIterations_def)
  have o: "(10000000000000002 :: rat) = of_int 10000000000000002" by simp
  from o r(1) s l i p show ?thesis by (intro conjI)
qed

text \<open>
  C10, amended: for every integer raw input not above \<open>2^53\<close> (so for every integer that
  passes validation) the decrement loop of either adjuster makes at most 2 iterations, so
  the 100-iteration ceiling is not reached; and there are valid non-integer inputs that
  reach it: for the length (or breadth) 200.5 the loop runs its 100 iterations and the
  adjuster returns 0, so that a valid builders slab of 200.5 by 100 gets the final length 0
  and the area 0.
\<close>

theorem ceiling_unreachable_on_exact_integers:
  assumes "n \<le> 2 ^ 53"
  shows "snd (decrementLoop (js_sub (of_int n) 3) 0) \<le> 2 \<and>
         snd (decrementLoop (js_sub (of_int n) 2) 0) \<le> 2 \<and>
         snd (decrementLoop (js_sub (of_int n) 3) 0) < maxIterations \<and>
         snd (decrementLoop (js_sub (of_int n) 2) 0) < maxIterations \<and>
         validDimension (JSNumber (Finite (401 / 2))) \<and>
         decrementLoop (js_sub (401 / 2) 3) 0 = (195 / 2, maxIterations) \<and>
         processLengthForDivisibility (401 / 2) = 0 \<and>
         decrementLoop (js_sub (401 / 2) 2) 0 = (197 / 2, maxIterations) \<and>
         processBreadthForDivisibility (401 / 2) = 0 \<and>
         calculateSquareFeet (JSNumber (Finite (401 / 2))) (JSNumber (Finite 100))
             (Some ''builders'')
           = Inr \<lparr> finalLength = 0, finalBreadth = 100, squareFeet = 0 \<rparr>"
proof -
  have l: "snd (decrementLoop (js_sub (of_int n) 3) 0) \<le> 2"
    using iterations_of_int[OF assms, of 3] by simp
  have b: "snd (decrementLoop (js_sub (of_int n) 2) 0) \<le> 2"
    using iterations_of_int[OF assms, of 2] by simp
  have l': "snd (decrementLoop (js_sub (of_int n) 3) 0) < maxIterations"
    using l by (simp add: maxIterations_def)
  have b': "snd (decrementLoop (js_sub (of_int n) 2) 0) < maxIterations"
    using b by (simp add: maxIterations_def)
  have v: "validDimension (JSNumber (Finite (401 / 2)))"
    by (simp add: validDimension_def)
  have e1: "decrementLoop (js_sub (401 / 2) 3) 0 = (195 / 2, maxIterations)"
    by (simp add: loop_eval)
  have e2: "processLengthForDivisibility (401 / 2) = 0"
    by (simp add: processLengthForDivisibility_def loop_eval)
  have e3: "decrementLoop (js_sub (401 / 2) 2) 0 = (197 / 2, maxIterations)"
    by (simp add: loop_eval)
  have e4: "processBreadthForDivisibility (401 / 2) = 0"
    by (simp add: processBreadthForDivisibility_def loop_eval)
  have e5: "calculateSquareFeet (JSNumber (Finite (401 / 2))) (JSNumber (Finite 100))
              (Some ''builders'')
     = Inr \<lparr> finalLength = 0, finalBreadth = 100, squareFeet = 0 \<rparr>"
    by (simp add: engine_eval validation_eval calculateBuilders_def e2 isFinite_def
          MAX_VALUE_def Math_round_def floor_one_div)
  from l b l' b' v e1 e2 e3 e4 e5 show ?thesis by (intro conjI)
qed

text \<open>
  The integer 149: as a length it takes two iterations (146, 145, 144), as a breadth none
  (147 is a multiple of 3).
\<close>

theorem ceiling_unreachable_on_exact_integers_witness:
  "(149::int) \<le> 2 ^ 53 \<and>
   snd (decrementLoop (js_sub 149 3) 0) \<le> 2 \<and> snd (decrementLoop (js_sub 149 3) 0) = 2 \<and>
   snd (decrementLoop (js_sub 149 2) 0) \<le> 2 \<and> snd (decrementLoop (js_sub 149 2) 0) = 0 \<and>
   processLengthForDivisibility (401 / 2) = 0"
  using ceiling_unreachable_on_exact_integers[of 149]
  by (simp add: loop_eval)
section \<open>Properties of the database and of the slab-entry model\<close>

subsection \<open>Two-decimal values\<close>

lemma two_decimals_iff: "two_decimals x \<longleftrightarrow> (\<exists>n::int. x * 100 = of_int n)"
  unfolding two_decimals_def by (metis floor_of_int)

lemma two_decimals_hundredths: "two_decimals (of_int k / 100)" "two_decimals (- (of_int k / 100))"
proof -
  show "two_decimals (of_int k / 100)" unfolding two_decimals_iff by (intro exI[of _ k]) simp
  show "two_decimals (- (of_int k / 100))"
    unfolding two_decimals_iff by (intro exI[of _ "- k"]) simp
qed

lemma decimal2_two_decimals:
  assumes "decimal2 p x = Some r"
  shows "two_decimals r"
proof (cases "0 \<le> x")
  case True
  with assms have "r = of_int \<lfloor>x * 100 + 1 / 2\<rfloor> / 100"
    by (simp add: decimal2_def Let_def split: if_splits)
  then show ?thesis by (simp only: two_decimals_hundredths)
next
  case False
  with assms have "r = - (of_int \<lfloor>- x * 100 + 1 / 2\<rfloor> / 100)"
    by (simp add: decimal2_def Let_def split: if_splits)
  then show ?thesis by (simp only: two_decimals_hundredths)
qed

lemma decimal2_id:
  assumes "two_decimals x" "decimal2 p x = Some r"
  shows "r = x"
proof -
  from assms(1) obtain m :: int where m: "x * 100 = of_int m"
    unfolding two_decimals_def by metis
  then have x: "x = of_int m / 100" by simp
  show ?thesis
  proof (cases "0 \<le> x")
    case True
    have "\<lfloor>x * 100 + 1 / 2\<rfloor> = m" unfolding m by linarith
    with True assms(2) x show ?thesis by (simp add: decimal2_def Let_def split: if_splits)
  next
    case False
    have "- x * 100 = of_int (- m)" using m by simp
    then have "\<lfloor>- x * 100 + 1 / 2\<rfloor> = - m" by linarith
    with False assms(2) x show ?thesis by (simp add: decimal2_def Let_def split: if_splits)
  qed
qed

lemma two_decimals_add: "two_decimals x \<Longrightarrow> two_decimals y \<Longrightarrow> two_decimals (x + y)"
proof -
  assume "two_decimals x" "two_decimals y"
  then obtain m n :: int where "x * 100 = of_int m" "y * 100 = of_int n"
    unfolding two_decimals_def by metis
  then have "(x + y) * 100 = of_int (m + n)" by (simp add: algebra_simps)
  then show ?thesis unfolding two_decimals_def by (metis floor_of_int)
qed

lemma two_decimals_0: "two_decimals 0"
  by (simp add: two_decimals_def)

lemma two_decimals_sum_list:
  "list_all two_decimals xs \<Longrightarrow> two_decimals (sum_list xs)"
  by (induction xs) (simp_all add: two_decimals_0 two_decimals_add)

lemma well_typed_sum: "well_typed db \<Longrightarrow> two_decimals (sum_square_feet db sid)"
  unfolding well_typed_def sum_square_feet_def entries_of_def
  by (intro two_decimals_sum_list) (simp add: list_all_iff)

subsection \<open>The trigger\<close>

lemma target_pair:
  "target (NEW, OLD) = (case NEW of Some n \<Rightarrow> Some (measurement_sheet_id n)
                      | None \<Rightarrow> map_option measurement_sheet_id OLD)"
  by (cases NEW) (simp_all add: target_def)

lemma recompute_empty: "map (recompute db {}) xs = xs"
  by (induction xs) (simp_all add: recompute_def)

lemma recompute_sheet_id: "sheet_id (recompute db S s) = sheet_id s"
  by (simp add: recompute_def)

lemma entries_of_sheets_update [simp]:
  "entries_of (db\<lparr> measurement_sheets := ms \<rparr>) sid = entries_of db sid"
  by (simp add: entries_of_def)

lemma sum_square_feet_sheets_update [simp]:
  "sum_square_feet (db\<lparr> measurement_sheets := ms \<rparr>) sid = sum_square_feet db sid"
  by (simp add: sum_square_feet_def)

lemma trigger_entries:
  assumes "update_measurement_sheet_total NEW OLD db = Inr db'"
  shows "slab_entries db' = slab_entries db \<and> uuid_counter db' = uuid_counter db \<and>
         map sheet_id (measurement_sheets db') = map sheet_id (measurement_sheets db)"
proof -
  have "map sheet_id (map (\<lambda>s. if sheet_id s = sid then s\<lparr> total_square_feet := t \<rparr> else s) ms)
          = map sheet_id ms" for sid t and ms :: "sheet_row list"
    by (induction ms) simp_all
  with assms show ?thesis
    by (auto simp: update_measurement_sheet_total_def split: option.splits if_splits)
qed

lemma fire_triggers_entries:
  assumes "fire_triggers ps db = Inr db'"
  shows "slab_entries db' = slab_entries db \<and> uuid_counter db' = uuid_counter db \<and>
         map sheet_id (measurement_sheets db') = map sheet_id (measurement_sheets db)"
  using assms
proof (induction ps arbitrary: db)
  case Nil
  then show ?case by simp
next
  case (Cons p ps)
  obtain NEW OLD where p: "p = (NEW, OLD)" by (cases p)
  from Cons.prems p obtain db1 where
    1: "update_measurement_sheet_total NEW OLD db = Inr db1" and
    2: "fire_triggers ps db1 = Inr db'"
    by (auto split: sum.splits)
  from trigger_entries[OF 1] Cons.IH[OF 2] show ?case by simp
qed

lemma trigger_effect:
  assumes "update_measurement_sheet_total NEW OLD db = Inr db'" "well_typed db"
  shows "db' = db\<lparr> measurement_sheets :=
                   map (recompute db (set_option (target (NEW, OLD)))) (measurement_sheets db) \<rparr>"
proof (cases "target (NEW, OLD)")
  case None
  then have "update_measurement_sheet_total NEW OLD db = Inr db"
    unfolding target_pair by (simp add: update_measurement_sheet_total_def)
  with assms None show ?thesis by (simp add: recompute_empty)
next
  case (Some sid)
  then have t: "(case NEW of Some n \<Rightarrow> Some (measurement_sheet_id n)
                      | None \<Rightarrow> map_option measurement_sheet_id OLD) = Some sid"
    by (simp add: target_pair)
  show ?thesis
  proof (cases "sheet_exists db sid")
    case False
    then have "\<And>s. s \<in> set (measurement_sheets db) \<Longrightarrow> sheet_id s \<noteq> sid"
      by (auto simp: sheet_exists_def)
    then have "map (recompute db {sid}) (measurement_sheets db) = measurement_sheets db"
      by (simp add: recompute_def map_idI)
    moreover from False t assms(1) have "db' = db"
      by (simp add: update_measurement_sheet_total_def)
    ultimately show ?thesis using Some by simp
  next
    case True
    with t assms(1) obtain tot where tot: "decimal2 10 (sum_square_feet db sid) = Some tot"
      and db': "db' = db\<lparr> measurement_sheets :=
                           map (\<lambda>s. if sheet_id s = sid then s\<lparr> total_square_feet := tot \<rparr>
                                    else s) (measurement_sheets db) \<rparr>"
      by (auto simp: update_measurement_sheet_total_def split: option.splits)
    from decimal2_id[OF well_typed_sum[OF assms(2)] tot] have "tot = sum_square_feet db sid" .
    then have "(\<lambda>s. if sheet_id s = sid then s\<lparr> total_square_feet := tot \<rparr> else s)
               = recompute db {sid}"
      by (auto simp: recompute_def fun_eq_iff)
    with db' Some show ?thesis by simp
  qed
qed

lemma recompute_twice:
  "recompute db T (recompute db S s) = recompute db (S \<union> T) s"
  by (simp add: recompute_def)

lemma well_typed_sheets_update [simp]:
  "well_typed (db\<lparr> measurement_sheets := ms \<rparr>) = well_typed db"
  by (simp add: well_typed_def)

lemma recompute_sheets_update [simp]:
  "recompute (db\<lparr> measurement_sheets := ms \<rparr>) = recompute db"
  by (simp add: recompute_def fun_eq_iff)

lemma fire_triggers_effect:
  assumes "fire_triggers ps db = Inr db'" "well_typed db"
  shows "db' = db\<lparr> measurement_sheets :=
                   map (recompute db (targets ps)) (measurement_sheets db) \<rparr>"
  using assms
proof (induction ps arbitrary: db)
  case Nil
  then show ?case by (simp add: targets_def recompute_empty)
next
  case (Cons p ps)
  obtain NEW OLD where p: "p = (NEW, OLD)" by (cases p)
  from Cons.prems(1) p obtain db1 where
    1: "update_measurement_sheet_total NEW OLD db = Inr db1" and
    2: "fire_triggers ps db1 = Inr db'"
    by (auto split: sum.splits)
  note e1 = trigger_effect[OF 1 Cons.prems(2)]
  have wt1: "well_typed db1" by (subst e1) (simp add: Cons.prems(2))
  note e2 = Cons.IH[OF 2 wt1]
  have "db' = db\<lparr> measurement_sheets :=
      map (recompute db (targets ps)) (map (recompute db (set_option (target (NEW, OLD))))
           (measurement_sheets db)) \<rparr>"
    by (subst e2, subst (1 2 3) e1) simp
  also have "map (recompute db (targets ps)) (map (recompute db (set_option (target (NEW, OLD))))
           (measurement_sheets db)) = map (recompute db (targets (p # ps))) (measurement_sheets db)"
    by (simp add: recompute_twice o_def targets_def p)
  finally show ?case .
qed

lemma sum_square_feet_cong:
  "slab_entries a = slab_entries b \<Longrightarrow> sum_square_feet a sid = sum_square_feet b sid"
  by (simp add: sum_square_feet_def entries_of_def)

lemma fire_triggers_recomputed:
  assumes "fire_triggers ps db1 = Inr db2" "well_typed db1"
  shows "slab_entries db2 = slab_entries db1"
    and "uuid_counter db2 = uuid_counter db1"
    and "well_typed db2"
    and "map sheet_id (measurement_sheets db2) = map sheet_id (measurement_sheets db1)"
    and "\<And>s. s \<in> set (measurement_sheets db2) \<Longrightarrow> sheet_id s \<in> targets ps \<Longrightarrow>
           total_square_feet s = sum_square_feet db2 (sheet_id s)"
proof -
  note e = fire_triggers_effect[OF assms]
  show "slab_entries db2 = slab_entries db1" by (subst e) simp
  show "uuid_counter db2 = uuid_counter db1" by (subst e) simp
  show "well_typed db2" by (subst e) (simp add: assms(2))
  show "map sheet_id (measurement_sheets db2) = map sheet_id (measurement_sheets db1)"
    by (subst e) (simp add: o_def recompute_sheet_id)
  fix s assume s: "s \<in> set (measurement_sheets db2)" "sheet_id s \<in> targets ps"
  have "measurement_sheets db2 = map (recompute db1 (targets ps)) (measurement_sheets db1)"
    by (subst e) simp
  with s(1) obtain s0 where s0: "s = recompute db1 (targets ps) s0" by auto
  with s(2) have "sheet_id s0 \<in> targets ps" by (simp add: recompute_sheet_id)
  with s0 have "total_square_feet s = sum_square_feet db1 (sheet_id s)"
    by (simp add: recompute_def)
  moreover have "sum_square_feet db2 (sheet_id s) = sum_square_feet db1 (sheet_id s)"
    by (subst e) simp
  ultimately show "total_square_feet s = sum_square_feet db2 (sheet_id s)" by simp
qed

lemma fire_triggers_consistent:
  assumes "fire_triggers ps db1 = Inr db2" "well_typed db1" "totals_consistent db"
    "measurement_sheets db1 = measurement_sheets db"
    "\<And>sid. sid \<notin> targets ps \<Longrightarrow> entries_of db1 sid = entries_of db sid"
  shows "totals_consistent db2"
proof -
  note e = fire_triggers_effect[OF assms(1,2)]
  have ms: "measurement_sheets db2 = map (recompute db1 (targets ps)) (measurement_sheets db)"
    by (subst e) (simp add: assms(4))
  have sums: "\<And>sid. sum_square_feet db2 sid = sum_square_feet db1 sid" by (subst e) simp
  have "total_square_feet (recompute db1 (targets ps) s0)
          = sum_square_feet db1 (sheet_id (recompute db1 (targets ps) s0))"
    if "s0 \<in> set (measurement_sheets db)" for s0
  proof (cases "sheet_id s0 \<in> targets ps")
    case True then show ?thesis by (simp add: recompute_def)
  next
    case False
    from that assms(3) have "total_square_feet s0 = sum_square_feet db (sheet_id s0)"
      by (simp add: totals_consistent_def list_all_iff)
    moreover have "sum_square_feet db1 (sheet_id s0) = sum_square_feet db (sheet_id s0)"
      using assms(5)[OF False] by (simp add: sum_square_feet_def)
    ultimately show ?thesis using False by (simp add: recompute_def)
  qed
  then show ?thesis
    unfolding totals_consistent_def list_all_iff ms by (auto simp: sums)
qed

lemma stored_row_fields:
  assumes "stored_row rid sid serial d = Inr r"
  shows "entry_id r = rid" "measurement_sheet_id r = sid" "serial_number r = serial"
        "two_decimals (square_feet r)"
proof -
  from assms obtain bn l b c fl fb sf where
    sf: "Option.bind (slabSquareFeet d) (decimal2 10) = Some sf" and
    r: "r = \<lparr> entry_id = rid, measurement_sheet_id = sid, serial_number = serial,
                     block_number = bn, entry_length = l, entry_breadth = b,
                     slab_category = c, final_length = fl, final_breadth = fb,
                     square_feet = sf, calculation_details = calculationDetails d \<rparr>"
    unfolding stored_row_def by (auto split: option.splits if_splits prod.splits)
  from r show "entry_id r = rid" "measurement_sheet_id r = sid" "serial_number r = serial"
    by simp_all
  from sf obtain x where "decimal2 10 x = Some sf" by (auto simp: bind_eq_Some_conv)
  then have "two_decimals sf" by (rule decimal2_two_decimals)
  with r show "two_decimals (square_feet r)" by simp
qed

lemma insert_rows_effect:
  assumes "insert_rows vs db = Inr (rs, db1)"
  shows "slab_entries db1 = slab_entries db @ rs \<and>
         measurement_sheets db1 = measurement_sheets db \<and>
         map measurement_sheet_id rs = map fst vs \<and>
         map serial_number rs = map (fst \<circ> snd) vs \<and>
         list_all (\<lambda>r. two_decimals (square_feet r)) rs"
  using assms
proof (induction vs arbitrary: db rs)
  case Nil
  then show ?case by simp
next
  case (Cons v vs)
  obtain sid serial d where v: "v = (sid, serial, d)" by (cases v)
  from Cons.prems v obtain r rs' where
    r: "stored_row (uuid_counter db) sid serial d = Inr r" and
    rest: "insert_rows vs (db\<lparr> slab_entries := slab_entries db @ [r],
                                uuid_counter := uuid_counter db + 1 \<rparr>) = Inr (rs', db1)" and
    rs: "rs = r # rs'"
    by (auto split: sum.splits if_splits prod.splits)
  from Cons.IH[OF rest] stored_row_fields[OF r] rs v show ?case by simp
qed

subsection \<open>The statements\<close>

lemma targets_insert: "targets (map (\<lambda>r. (Some r, None)) rs) = measurement_sheet_id ` set rs"
  by (auto simp: targets_def target_def)



lemma well_typed_append:
  "well_typed db \<Longrightarrow> list_all (\<lambda>r. two_decimals (square_feet r)) rs \<Longrightarrow>
   well_typed (db\<lparr> slab_entries := slab_entries db @ rs \<rparr>)"
  by (simp add: well_typed_def)

lemma sql_insert_effect:
  assumes "sql_insert vs db = Inr (rs, db2)" "well_typed db"
  shows "slab_entries db2 = slab_entries db @ rs"
    and "map measurement_sheet_id rs = map fst vs"
    and "map serial_number rs = map (fst \<circ> snd) vs"
    and "well_typed db2"
    and "map sheet_id (measurement_sheets db2) = map sheet_id (measurement_sheets db)"
    and "\<And>s. s \<in> set (measurement_sheets db2) \<Longrightarrow> sheet_id s \<in> fst ` set vs \<Longrightarrow>
           total_square_feet s = sum_square_feet db2 (sheet_id s)"
    and "totals_consistent db \<Longrightarrow> totals_consistent db2"
proof -
  from assms(1) obtain db1 where
    ins: "insert_rows vs db = Inr (rs, db1)" and
    fire: "fire_triggers (map (\<lambda>r. (Some r, None)) rs) db1 = Inr db2"
    by (auto simp: sql_insert_def split: if_splits sum.splits)
  note i = insert_rows_effect[OF ins]
  have wt1: "well_typed db1" using i assms(2) by (simp add: well_typed_def)
  note f = fire_triggers_recomputed[OF fire wt1]
  have tg: "targets (map (\<lambda>r. (Some r, None)) rs) = fst ` set vs"
    unfolding targets_insert using i by (metis list.set_map)
  show "slab_entries db2 = slab_entries db @ rs" using f(1) i by simp
  show "map measurement_sheet_id rs = map fst vs" using i by simp
  show "map serial_number rs = map (fst \<circ> snd) vs" using i by simp
  show "well_typed db2" by (rule f(3))
  show "map sheet_id (measurement_sheets db2) = map sheet_id (measurement_sheets db)"
    using f(4) i by simp
  show "\<And>s. s \<in> set (measurement_sheets db2) \<Longrightarrow> sheet_id s \<in> fst ` set vs \<Longrightarrow>
           total_square_feet s = sum_square_feet db2 (sheet_id s)"
    using f(5) unfolding tg by blast
  show "totals_consistent db2" if "totals_consistent db"
  proof (rule fire_triggers_consistent[OF fire wt1 that])
    show "measurement_sheets db1 = measurement_sheets db" using i by simp
    fix sid assume "sid \<notin> targets (map (\<lambda>r. (Some r, None)) rs)"
    then have "filter (\<lambda>e. measurement_sheet_id e = sid) rs = []"
      unfolding targets_insert by (auto simp: filter_empty_conv)
    then show "entries_of db1 sid = entries_of db sid" using i by (simp add: entries_of_def)
  qed
qed






lemma sheet_consistent_cong:
  assumes "measurement_sheets a = measurement_sheets b" "entries_of a sid = entries_of b sid"
  shows "sheet_consistent a sid = sheet_consistent b sid"
  using assms by (simp add: sheet_consistent_def sum_square_feet_def)

lemma fire_triggers_sheet:
  assumes "fire_triggers ps db1 = Inr db2" "well_typed db1"
  shows "sheet_consistent db2 sid \<longleftrightarrow> sid \<in> targets ps \<or> sheet_consistent db1 sid"
proof -
  note e = fire_triggers_effect[OF assms]
  have ms: "measurement_sheets db2 = map (recompute db1 (targets ps)) (measurement_sheets db1)"
    by (subst e) simp
  have sums: "sum_square_feet db2 sid = sum_square_feet db1 sid" by (subst e) simp
  show ?thesis
  proof (cases "sid \<in> targets ps")
    case True
    then show ?thesis
      unfolding sheet_consistent_def ms sums list_all_iff by (auto simp: recompute_def)
  next
    case False
    then show ?thesis
      unfolding sheet_consistent_def ms sums list_all_iff by (auto simp: recompute_def)
  qed
qed

lemma sql_insert_sheet:
  assumes "sql_insert vs db = Inr (rs, db2)" "well_typed db"
  shows "sheet_consistent db2 sid \<longleftrightarrow> sid \<in> fst ` set vs \<or> sheet_consistent db sid"
proof -
  from assms(1) obtain db1 where
    ins: "insert_rows vs db = Inr (rs, db1)" and
    fire: "fire_triggers (map (\<lambda>r. (Some r, None)) rs) db1 = Inr db2"
    by (auto simp: sql_insert_def split: if_splits sum.splits)
  note i = insert_rows_effect[OF ins]
  have wt1: "well_typed db1" using i assms(2) by (simp add: well_typed_def)
  have tg: "targets (map (\<lambda>r. (Some r, None)) rs) = fst ` set vs"
    unfolding targets_insert using i by (metis list.set_map)
  show ?thesis
  proof (cases "sid \<in> fst ` set vs")
    case True
    then show ?thesis using fire_triggers_sheet[OF fire wt1, of sid] tg by simp
  next
    case False
    then have "filter (\<lambda>e. measurement_sheet_id e = sid) rs = []"
      using i by (metis (mono_tags, lifting) filter_False imageI list.set_map)
    then have "entries_of db1 sid = entries_of db sid" using i by (simp add: entries_of_def)
    with i have "sheet_consistent db1 sid = sheet_consistent db sid"
      by (intro sheet_consistent_cong) simp_all
    then show ?thesis using fire_triggers_sheet[OF fire wt1, of sid] tg by simp
  qed
qed



subsection \<open>The operations of the model\<close>



lemma sql_insert_entries:
  assumes "sql_insert vs db = Inr (rs, db2)"
  shows "slab_entries db2 = slab_entries db @ rs"
    and "map measurement_sheet_id rs = map fst vs"
    and "map serial_number rs = map (fst \<circ> snd) vs"
    and "vs \<noteq> []"
proof -
  from assms(1) obtain db1 where
    ins: "insert_rows vs db = Inr (rs, db1)" and
    fire: "fire_triggers (map (\<lambda>r. (Some r, None)) rs) db1 = Inr db2" and
    ne: "vs \<noteq> []"
    by (auto simp: sql_insert_def split: if_splits sum.splits)
  note i = insert_rows_effect[OF ins] and f = fire_triggers_entries[OF fire]
  show "slab_entries db2 = slab_entries db @ rs" using i f by simp
  show "map measurement_sheet_id rs = map fst vs" using i by simp
  show "map serial_number rs = map (fst \<circ> snd) vs" using i by simp
  show "vs \<noteq> []" by (rule ne)
qed

text \<open>
  The values the loop of \<open>batchCreate\<close> queues for its \<open>INSERT\<close>: the sheet, with the
  serial numbers that follow the number it starts from.
\<close>

lemma batch_values_fst:
  "map fst (batch_values sid c ds) = replicate (length ds) sid"
  by (induction ds arbitrary: c) simp_all

lemma batch_values_serials:
  "map (fst \<circ> snd) (batch_values sid c ds) = [c + 1 .. c + int (length ds)]"
proof (induction ds arbitrary: c)
  case Nil
  then show ?case by simp
next
  case (Cons d ds)
  have a: "c + int (length (d # ds)) = c + 1 + int (length ds)" by simp
  have "[c + 1 .. c + 1 + int (length ds)] = (c + 1) # [c + 1 + 1 .. c + 1 + int (length ds)]"
    by (rule upto_rec1) simp
  with Cons.IH[of "c + 1"] show ?case unfolding a by simp
qed

text \<open>
  The serial-number query is refused, so \<open>create\<close> and \<open>batchCreate\<close> throw: the model's
  own error when the sheet is missing, the database's otherwise.
\<close>

lemma create_throws:
  "SlabEntry_create sid d db =
     Inl (if sheet_exists db sid
          then DatabaseError ''FOR UPDATE is not allowed with aggregate functions''
          else Error ''Measurement sheet not found'')"
  by (simp add: SlabEntry_create_def serial_query_def)

lemma batchCreate_throws:
  "SlabEntry_batchCreate sid ds db =
     Inl (if sheet_exists db sid
          then DatabaseError ''FOR UPDATE is not allowed with aggregate functions''
          else Error ''Measurement sheet not found'')"
  by (simp add: SlabEntry_batchCreate_def serial_query_def)










section \<open>The claims about the ledger\<close>

text \<open>
  C7. \<open>SlabEntry.create\<close> is to give the new entry the serial number max + 1 of its sheet
  (1 on a sheet with no entries) and \<open>SlabEntry.batchCreate\<close> the numbers max + 1 ..
  max + N, so that the serial numbers of a sheet are dense from 1. The code does not get
  that far: the serial-number query of both carries \<open>FOR UPDATE\<close> on an aggregate, which
  the database refuses. On the example sheet, which exists and has no entries, \<open>create\<close>
  throws the database's error where serial number 1 is due, \<open>batchCreate\<close> of two entries
  throws it where 1 and 2 are due, and the sheet has no entry after both calls; on the sheet
  with the entries 1, 2, 3 \<open>create\<close> throws it where 4 is due. Neither call returns on any
  ledger. (The loop of \<open>batchCreate\<close> does queue the numbers max + 1 .. max + N, lemma
  \<open>batch_values_serials\<close>, and the controller's \<open>createSlabEntry\<close> sends the same query
  without the locking clause.)
\<close>

theorem create_refused_by_serial_query:
  "sheet_exists example_db 1 \<and> entries_of example_db 1 = [] \<and>
   max_serial example_db 1 + 1 = 1 \<and>
   SlabEntry_create 1 example_data example_db
     = Inl (DatabaseError ''FOR UPDATE is not allowed with aggregate functions'') \<and>
   SlabEntry_batchCreate 1 [example_data, example_data] example_db
     = Inl (DatabaseError ''FOR UPDATE is not allowed with aggregate functions'') \<and>
   after_calls [Create 1 example_data, BatchCreate 1 [example_data, example_data]] example_db
     = example_db \<and>
   map serial_number (entries_of example_db3 1) = [1, 2, 3] \<and>
   max_serial example_db3 1 + 1 = 4 \<and>
   SlabEntry_create 1 example_data example_db3
     = Inl (DatabaseError ''FOR UPDATE is not allowed with aggregate functions'') \<and>
   SlabEntry_create sid d db \<noteq> Inr created \<and>
   SlabEntry_batchCreate sid ds db \<noteq> Inr batch"
proof -
  have 1: "sheet_exists example_db 1" by code_simp
  have 2: "entries_of example_db 1 = []" by code_simp
  have 3: "max_serial example_db 1 + 1 = 1" by code_simp
  have 4: "SlabEntry_create 1 example_data example_db
     = Inl (DatabaseError ''FOR UPDATE is not allowed with aggregate functions'')"
    using 1 by (simp add: create_throws)
  have 5: "SlabEntry_batchCreate 1 [example_data, example_data] example_db
     = Inl (DatabaseError ''FOR UPDATE is not allowed with aggregate functions'')"
    using 1 by (simp add: batchCreate_throws)
  have 6: "after_calls [Create 1 example_data, BatchCreate 1 [example_data, example_data]]
             example_db = example_db"
    by code_simp
  have 7: "map serial_number (entries_of example_db3 1) = [1, 2, 3]" by code_simp
  have 8: "max_serial example_db3 1 + 1 = 4" by code_simp
  have "sheet_exists example_db3 1" by code_simp
  then have 9: "SlabEntry_create 1 example_data example_db3
     = Inl (DatabaseError ''FOR UPDATE is not allowed with aggregate functions'')"
    by (simp add: create_throws)
  have 10: "SlabEntry_create sid d db \<noteq> Inr created" by (simp add: create_throws)
  have 11: "SlabEntry_batchCreate sid ds db \<noteq> Inr batch" by (simp add: batchCreate_throws)
  from 1 2 3 4 5 6 7 8 9 10 11 show ?thesis by (intro conjI)
qed


section \<open>The claim about the cache\<close>

lemma caught:
  "\<exists>v s'. (case r of (Inl error, s') \<Rightarrow> (Inr d, s') | (Inr v, s') \<Rightarrow> (Inr v, s')) = (Inr v, s')"
  by (cases r) (auto split: sum.splits)

lemma caught_failure:
  "r = (Inl e, s') \<Longrightarrow>
   (case r of (Inl error, s') \<Rightarrow> (Inr d, s') | (Inr v, s') \<Rightarrow> (Inr v, s')) = (Inr d, s')"
  by simp

lemma memory_clearPattern_no_match:
  assumes "\<not> no_host env" "\<forall>k \<in> set (map fst st). \<not> glob pattern k"
  shows "cache_clearPattern env memory_client pattern st = (Inr True, st)"
proof -
  from assms(2) have "filter (glob pattern) (map fst st) = []"
    by (simp add: filter_empty_conv)
  with assms(1) show ?thesis
    by (simp add: cache_clearPattern_def cache_clearPattern_try_def memory_client_def)
qed

lemma memory_del_absent:
  assumes "\<not> no_host env" "key \<notin> set (map fst st)"
  shows "cache_del env memory_client key st = (Inr True, st)"
proof -
  from assms(2) have "filter (\<lambda>kv. fst kv \<notin> set [key]) st = st"
    by (auto simp: filter_id_conv)
  with assms(1) show ?thesis
    by (simp add: cache_del_def cache_del_try_def memory_client_def)
qed

text \<open>
  C9. Every cache operation returns, whatever the client does, and never passes an error
  on to its caller: when anything in its \<open>try\<close> block throws, \<open>get\<close> returns \<open>null\<close>
  and \<open>set\<close>, \<open>del\<close> and \<open>clearPattern\<close> return \<open>false\<close>. With no Redis host configured
  they return \<open>null\<close> and \<open>false\<close> without a call to the client. On a working server,
  \<open>clearPattern\<close> with a pattern that matches no key and \<open>del\<close> of an absent key change
  nothing and return \<open>true\<close>.
\<close>

theorem cache_never_throws:
  "(\<exists>v s'. cache_get env client key s = (Inr v, s')) \<and>
   (\<exists>b s'. cache_set env client key val ttl s = (Inr b, s')) \<and>
   (\<exists>b s'. cache_del env client key s = (Inr b, s')) \<and>
   (\<exists>b s'. cache_clearPattern env client pattern s = (Inr b, s')) \<and>
   (cache_get_try env client key s = (Inl e, s1) \<longrightarrow>
      cache_get env client key s = (Inr None, s1)) \<and>
   (cache_set_try env client key val ttl s = (Inl e, s1) \<longrightarrow>
      cache_set env client key val ttl s = (Inr False, s1)) \<and>
   (cache_del_try env client key s = (Inl e, s1) \<longrightarrow>
      cache_del env client key s = (Inr False, s1)) \<and>
   (cache_clearPattern_try env client pattern s = (Inl e, s1) \<longrightarrow>
      cache_clearPattern env client pattern s = (Inr False, s1)) \<and>
   (no_host env \<longrightarrow>
      cache_get env client key s = (Inr None, s) \<and>
      cache_set env client key val ttl s = (Inr False, s) \<and>
      cache_del env client key s = (Inr False, s) \<and>
      cache_clearPattern env client pattern s = (Inr False, s)) \<and>
   (\<not> no_host env \<and> (\<forall>k \<in> set (map fst st). \<not> glob pattern k) \<longrightarrow>
      cache_clearPattern env memory_client pattern st = (Inr True, st)) \<and>
   (\<not> no_host env \<and> key \<notin> set (map fst st) \<longrightarrow>
      cache_del env memory_client key st = (Inr True, st))"
proof (intro conjI impI)
  show "\<exists>v s'. cache_get env client key s = (Inr v, s')"
    unfolding cache_get_def by (rule caught)
  show "\<exists>b s'. cache_set env client key val ttl s = (Inr b, s')"
    unfolding cache_set_def by (rule caught)
  show "\<exists>b s'. cache_del env client key s = (Inr b, s')"
    unfolding cache_del_def by (rule caught)
  show "\<exists>b s'. cache_clearPattern env client pattern s = (Inr b, s')"
    unfolding cache_clearPattern_def by (rule caught)
  show "cache_get env client key s = (Inr None, s1)"
    if "cache_get_try env client key s = (Inl e, s1)"
    unfolding cache_get_def by (rule caught_failure[OF that])
  show "cache_set env client key val ttl s = (Inr False, s1)"
    if "cache_set_try env client key val ttl s = (Inl e, s1)"
    unfolding cache_set_def by (rule caught_failure[OF that])
  show "cache_del env client key s = (Inr False, s1)"
    if "cache_del_try env client key s = (Inl e, s1)"
    unfolding cache_del_def by (rule caught_failure[OF that])
  show "cache_clearPattern env client pattern s = (Inr False, s1)"
    if "cache_clearPattern_try env client pattern s = (Inl e, s1)"
    unfolding cache_clearPattern_def by (rule caught_failure[OF that])
  show "cache_get env client key s = (Inr None, s)" if "no_host env"
    using that by (simp add: cache_get_def cache_get_try_def)
  show "cache_set env client key val ttl s = (Inr False, s)" if "no_host env"
    using that by (simp add: cache_set_def cache_set_try_def)
  show "cache_del env client key s = (Inr False, s)" if "no_host env"
    using that by (simp add: cache_del_def cache_del_try_def)
  show "cache_clearPattern env client pattern s = (Inr False, s)" if "no_host env"
    using that by (simp add: cache_clearPattern_def cache_clearPattern_try_def)
  show "cache_clearPattern env memory_client pattern st = (Inr True, st)"
    if "\<not> no_host env \<and> (\<forall>k \<in> set (map fst st). \<not> glob pattern k)"
    using that by (intro memory_clearPattern_no_match) simp_all
  show "cache_del env memory_client key st = (Inr True, st)"
    if "\<not> no_host env \<and> key \<notin> set (map fst st)"
    using that by (intro memory_del_absent) simp_all
qed

text \<open>
  With the connection down every operation fails inside and returns \<open>null\<close> or \<open>false\<close>;
  on a working server with two keys, clearing a pattern that matches neither and deleting
  a key that is not there leave the store as it is, while a pattern that matches one key
  removes it.
\<close>

theorem cache_never_throws_witness:
  "cache_get_try example_env broken_client ''k'' () = (Inl (Exception ''ECONNREFUSED''), ()) \<and>
   cache_get example_env broken_client ''k'' () = (Inr None, ()) \<and>
   cache_set_try example_env broken_client ''k'' ''v'' None ()
     = (Inl (Exception ''ECONNREFUSED''), ()) \<and>
   cache_set example_env broken_client ''k'' ''v'' None () = (Inr False, ()) \<and>
   cache_del_try example_env broken_client ''k'' () = (Inl (Exception ''ECONNREFUSED''), ()) \<and>
   cache_del example_env broken_client ''k'' () = (Inr False, ()) \<and>
   cache_clearPattern_try example_env broken_client ''slab_entries:*'' ()
     = (Inl (Exception ''ECONNREFUSED''), ()) \<and>
   cache_clearPattern example_env broken_client ''slab_entries:*'' () = (Inr False, ()) \<and>
   \<not> no_host example_env \<and>
   list_all (\<lambda>k. \<not> glob ''slab_entries:*'' k) (map fst example_store) \<and>
   cache_clearPattern example_env memory_client ''slab_entries:*'' example_store
     = (Inr True, example_store) \<and>
   ''measurement_sheet_full:9'' \<notin> set (map fst example_store) \<and>
   cache_del example_env memory_client ''measurement_sheet_full:9'' example_store
     = (Inr True, example_store) \<and>
   cache_clearPattern example_env memory_client ''measurement_sheet*'' example_store
     = (Inr True, [(''customers:all'', ''[]'')]) \<and>
   cache_get (example_env\<lparr> REDIS_HOST := None \<rparr>) memory_client ''customers:all'' example_store
     = (Inr None, example_store)"
proof -
  note t = cache_never_throws
             [of example_env broken_client "''k''" "()" "''v''" None "''slab_entries:*''"
                 "Exception ''ECONNREFUSED''" "()" example_store]
  have h: "\<not> no_host example_env" by (simp add: no_host_def example_env_def)
  have g: "list_all (\<lambda>k. \<not> glob ''slab_entries:*'' k) (map fst example_store)"
    by (simp add: example_store_def)
  have a: "''measurement_sheet_full:9'' \<notin> set (map fst example_store)"
    by (simp add: example_store_def)
  have b1: "cache_get_try example_env broken_client ''k'' ()
              = (Inl (Exception ''ECONNREFUSED''), ())"
    using h by (simp add: cache_get_try_def broken_client_def)
  have b2: "cache_set_try example_env broken_client ''k'' ''v'' None ()
              = (Inl (Exception ''ECONNREFUSED''), ())"
    using h by (simp add: cache_set_try_def broken_client_def example_env_def)
  have b3: "cache_del_try example_env broken_client ''k'' ()
              = (Inl (Exception ''ECONNREFUSED''), ())"
    using h by (simp add: cache_del_try_def broken_client_def)
  have b4: "cache_clearPattern_try example_env broken_client ''slab_entries:*'' ()
              = (Inl (Exception ''ECONNREFUSED''), ())"
    using h by (simp add: cache_clearPattern_try_def broken_client_def)
  have c1: "cache_clearPattern example_env memory_client ''slab_entries:*'' example_store
              = (Inr True, example_store)"
    using cache_never_throws
            [of example_env memory_client "''k''" example_store "''v''" None
                "''slab_entries:*''" "Exception ''ECONNREFUSED''" example_store example_store]
      h g
    by (simp add: list_all_iff)
  have c2: "cache_del example_env memory_client ''measurement_sheet_full:9'' example_store
              = (Inr True, example_store)"
    using cache_never_throws
            [of example_env memory_client "''measurement_sheet_full:9''" example_store "''v''"
                None "''slab_entries:*''" "Exception ''ECONNREFUSED''" example_store example_store]
      h a
    by simp
  have c3: "cache_clearPattern example_env memory_client ''measurement_sheet*'' example_store
              = (Inr True, [(''customers:all'', ''[]'')])"
    using h
    by (simp add: cache_clearPattern_def cache_clearPattern_try_def memory_client_def
          example_store_def)
  have c4: "cache_get (example_env\<lparr> REDIS_HOST := None \<rparr>) memory_client ''customers:all''
              example_store = (Inr None, example_store)"
    by (simp add: cache_get_def cache_get_try_def no_host_def)
  from t b1 have d1: "cache_get example_env broken_client ''k'' () = (Inr None, ())" by blast
  from t b2 have d2: "cache_set example_env broken_client ''k'' ''v'' None () = (Inr False, ())"
    by blast
  from t b3 have d3: "cache_del example_env broken_client ''k'' () = (Inr False, ())" by blast
  from t b4 have d4: "cache_clearPattern example_env broken_client ''slab_entries:*'' ()
                        = (Inr False, ())"
    by blast
  from b1 d1 b2 d2 b3 d3 b4 d4 h g c1 a c2 c3 c4 show ?thesis by (intro conjI)
qed

end
